theory Spec2Isabelle
  imports
    Main
    "HOL-Library.Char_ord"
    "HOL-Library.List_Lexorder"
    "HOL-Library.Product_Lexorder"
begin

section \<open>Data model (internal/storage/models.go)\<close>

text \<open>
  Strings are Go strings: byte sequences, compared byte for byte. A \<open>time.Time\<close> is an
  instant on the integer line and a \<open>time.Duration\<close> an integer distance on it; the zero
  \<open>time.Time\<close> is 0.
\<close>

type_synonym time = int
type_synonym duration = int

text \<open>The Go structs \<open>Tag\<close> and \<open>Instance\<close>.\<close>

record Tag =
  TagInstanceID :: string
  Key :: string
  Value :: string

record Instance =
  ID :: nat
  InstanceID :: string
  Name :: string
  Region :: string
  Profile :: string
  AccountID :: string
  State :: string
  Platform :: string
  LastSeen :: time
  CreatedAt :: time
  UpdatedAt :: time
  Tags :: "Tag list"

text \<open>
  The tables \<open>instances\<close> and \<open>tags\<close> of the SQLite file. A row of \<open>instances\<close> has the
  columns of the struct; \<open>Tags\<close> is an association (foreign key \<open>instance_id\<close>), not a
  column. Rows are kept in insertion order; \<open>next_id\<close> is the next primary key the
  table \<open>instances\<close> hands out. The primary key of a tag row is read by no operation of
  the repository and is left out. \<open>regions\<close> is the table of the regions chosen for
  discovery.
\<close>

record InstanceRow =
  c_id :: nat
  c_instance_id :: string
  c_name :: string
  c_region :: string
  c_profile :: string
  c_account_id :: string
  c_state :: string
  c_platform :: string
  c_last_seen :: time
  c_created_at :: time
  c_updated_at :: time

record TagRow =
  t_instance_id :: string
  t_key :: string
  t_value :: string

record RegionRow =
  g_region :: string
  g_enabled :: bool

record store =
  instances :: "InstanceRow list"
  tags :: "TagRow list"
  next_id :: nat
  regions :: "RegionRow list"

text \<open>The errors the repository and the discovery service build with \<open>fmt.Errorf\<close>.\<close>

datatype error =
    FailedToSaveInstance
  | FailedToDeleteExistingTags
  | FailedToSaveTags
  | FailedToFindInstanceByName
  | FailedToFindInstanceByID
  | FailedToListInstances
  | FailedToDeleteStaleInstances
  | FailedToGetEnabledRegions
  | FailedToAcquireSemaphore string string
  | FailedToGetAWSClient
  | FailedToDescribeInstances
  | FailedToListSSMManagedInstances
  | InvalidTTLDuration
  | DiscoveryCompletedWithErrors nat

text \<open>What logrus is asked to print.\<close>

datatype log_entry =
    InfoDeletedStaleInstances nat
  | WarnFailedToSaveEC2InstancesBatch string string error
  | WarnFailedToSaveSSMInstancesBatch string string error
  | WarnFailedToDiscoverInstances string string error
  | WarnFailedToCleanupStaleInstances error

section \<open>Reading rows (GORM queries)\<close>

text \<open>Scanning a row into a struct fills the columns; \<open>Tags\<close> stays nil.\<close>

definition scan :: "InstanceRow \<Rightarrow> Instance" where
  "scan r = \<lparr> ID = c_id r, InstanceID = c_instance_id r, Name = c_name r,
      Region = c_region r, Profile = c_profile r, AccountID = c_account_id r,
      State = c_state r, Platform = c_platform r, LastSeen = c_last_seen r,
      CreatedAt = c_created_at r, UpdatedAt = c_updated_at r, Tags = [] \<rparr>"

definition scanTag :: "TagRow \<Rightarrow> Tag" where
  "scanTag t = \<lparr> TagInstanceID = t_instance_id t, Key = t_key t, Value = t_value t \<rparr>"

text \<open>
  \<open>Preload("Tags")\<close>: the tag rows whose \<open>instance_id\<close> is the struct's \<open>InstanceID\<close>
  (\<open>foreignKey:InstanceID;references:InstanceID\<close>).
\<close>

definition preloadTags :: "store \<Rightarrow> Instance \<Rightarrow> Instance" where
  "preloadTags s i =
     i\<lparr> Tags := map scanTag (filter (\<lambda>t. t_instance_id t = InstanceID i) (tags s)) \<rparr>"

text \<open>SQLite's \<open>lower()\<close> folds the ASCII letters only.\<close>

definition lower_char :: "char \<Rightarrow> char" where
  "lower_char c =
     (if CHR ''A'' \<le> c \<and> c \<le> CHR ''Z'' then char_of (of_char c + (32::nat)) else c)"

definition lower :: "string \<Rightarrow> string" where
  "lower s = map lower_char s"

text \<open>
  The \<open>CASE\<close> of \<open>orderExpr\<close> in \<open>FindByName\<close>, and the whole \<open>ORDER BY\<close> that
  \<open>First\<close> runs: \<open>orderExpr\<close>, then the primary key that \<open>First\<close> appends. A descending
  column is the ascending order of its negation.
\<close>

definition stateRank :: "string \<Rightarrow> nat" where
  "stateRank st =
     (if st = ''Online'' then 0 else if lower st = ''running'' then 1 else 2)"

definition orderExpr :: "InstanceRow \<Rightarrow> nat \<times> int \<times> int \<times> nat" where
  "orderExpr r = (stateRank (c_state r), - c_last_seen r, - c_updated_at r, c_id r)"

text \<open>
  The outcome of a \<open>First\<close>: the store refused the query, \<open>gorm.ErrRecordNotFound\<close>,
  or the first row of the ordered result. \<open>fault\<close> says whether the store refuses.
\<close>

datatype 'a first = QueryError | ErrRecordNotFound | Found 'a

definition firstOrdered ::
  "bool \<Rightarrow> (InstanceRow \<Rightarrow> 'k::linorder) \<Rightarrow> InstanceRow list \<Rightarrow> InstanceRow first" where
  "firstOrdered fault k rs =
     (if fault then QueryError
      else if rs = [] then ErrRecordNotFound
      else Found (arg_min_list k rs))"

text \<open>\<open>DB.Preload("Tags").Where("name = ?", n).Order(orderExpr).First(&instance)\<close>\<close>

definition firstByName :: "bool \<Rightarrow> store \<Rightarrow> string \<Rightarrow> Instance first" where
  "firstByName fault s n =
     (case firstOrdered fault orderExpr (filter (\<lambda>r. c_name r = n) (instances s)) of
        QueryError \<Rightarrow> QueryError
      | ErrRecordNotFound \<Rightarrow> ErrRecordNotFound
      | Found r \<Rightarrow> Found (preloadTags s (scan r)))"

fun indexOfDotFrom :: "nat \<Rightarrow> string \<Rightarrow> int" where
  "indexOfDotFrom i [] = - 1"
| "indexOfDotFrom i (c # cs) = (if c = CHR ''.'' then int i else indexOfDotFrom (Suc i) cs)"

definition indexOfDot :: "string \<Rightarrow> int" where
  "indexOfDot s = indexOfDotFrom 0 s"

text \<open>
  \<open>FindByName\<close>: \<open>fault1\<close> and \<open>fault2\<close> say whether the store refuses the first and the
  second query. The result is the pair \<open>(*Instance, error)\<close>: \<open>Inl\<close> the error, \<open>Inr None\<close>
  for \<open>nil, nil\<close>.
\<close>

definition FindByName :: "bool \<Rightarrow> bool \<Rightarrow> store \<Rightarrow> string \<Rightarrow> error + Instance option" where
  "FindByName fault1 fault2 s name =
     (case firstByName fault1 s name of
        Found instance \<Rightarrow> Inr (Some instance)
      | ErrRecordNotFound \<Rightarrow>
          (let idx = indexOfDot name in
           if idx > 0 then
             (case firstByName fault2 s (take (nat idx) name) of
                Found alt \<Rightarrow> Inr (Some alt)
              | _ \<Rightarrow> Inr None)
           else Inr None)
      | QueryError \<Rightarrow> Inl FailedToFindInstanceByName)"

text \<open>\<open>DB.Preload("Tags").Where("instance_id = ?", instanceID).First(&instance)\<close>\<close>

definition FindByID :: "bool \<Rightarrow> store \<Rightarrow> string \<Rightarrow> error + Instance option" where
  "FindByID fault s instanceID =
     (case firstOrdered fault c_id (filter (\<lambda>r. c_instance_id r = instanceID) (instances s)) of
        Found r \<Rightarrow> Inr (Some (preloadTags s (scan r)))
      | ErrRecordNotFound \<Rightarrow> Inr None
      | QueryError \<Rightarrow> Inl FailedToFindInstanceByID)"

text \<open>
  SQLite's \<open>LIKE\<close>: \<open>%\<close> matches any run of bytes, \<open>_\<close> any one byte, and the ASCII
  letters match without regard to case.
\<close>

fun like :: "string \<Rightarrow> string \<Rightarrow> bool" where
  "like [] s = (s = [])"
| "like (p # ps) s =
     (if p = CHR ''%'' then
        (like ps s \<or> (case s of [] \<Rightarrow> False | _ # cs \<Rightarrow> like (p # ps) cs))
      else
        (case s of
           [] \<Rightarrow> False
         | c # cs \<Rightarrow> (p = CHR ''_'' \<or> lower_char p = lower_char c) \<and> like ps cs))"

record InstanceFilter =
  f_Profile :: "string option"
  f_Region :: "string option"
  f_Name :: "string option"
  f_State :: "string option"

definition listWhere :: "InstanceFilter option \<Rightarrow> InstanceRow \<Rightarrow> bool" where
  "listWhere flt r =
     (case flt of
        None \<Rightarrow> True
      | Some f \<Rightarrow>
          (case f_Profile f of None \<Rightarrow> True | Some p \<Rightarrow> c_profile r = p) \<and>
          (case f_Region f of None \<Rightarrow> True | Some g \<Rightarrow> c_region r = g) \<and>
          (case f_Name f of None \<Rightarrow> True
             | Some n \<Rightarrow> like (''%'' @ n @ ''%'') (c_name r)) \<and>
          (case f_State f of None \<Rightarrow> True | Some st \<Rightarrow> c_state r = st))"

text \<open>\<open>List\<close>: no \<open>Preload\<close>; \<open>ORDER BY profile ASC, region ASC, name ASC\<close>.\<close>

definition List :: "bool \<Rightarrow> store \<Rightarrow> InstanceFilter option \<Rightarrow> error + Instance list" where
  "List fault s flt =
     (if fault then Inl FailedToListInstances
      else Inr (map scan
             (sort_key (\<lambda>r. (c_profile r, c_region r, c_name r))
                (filter (listWhere flt) (instances s)))))"

text \<open>
  \<open>DeleteStale\<close> returns an \<open>error\<close> and nothing else (\<open>None\<close> is \<open>nil\<close>); the number of
  deleted rows goes to the log. Only the table \<open>instances\<close> is touched.
\<close>

definition DeleteStale ::
  "bool \<Rightarrow> time \<Rightarrow> duration \<Rightarrow> store \<Rightarrow> error option \<times> log_entry list \<times> store" where
  "DeleteStale fault now olderThan s =
     (let cutoff = now + (- olderThan);
          RowsAffected = length (filter (\<lambda>r. c_last_seen r < cutoff) (instances s))
      in if fault then (Some FailedToDeleteStaleInstances, [], s)
         else (None,
               (if RowsAffected > 0 then [InfoDeletedStaleInstances RowsAffected] else []),
               s\<lparr> instances := filter (\<lambda>r. \<not> c_last_seen r < cutoff) (instances s) \<rparr>))"

section \<open>Writing rows (SaveOrUpdate, SaveOrUpdateBatch)\<close>

text \<open>
  A record handed to the repository is one a converter built: \<open>ID\<close>, \<open>CreatedAt\<close> and
  \<open>UpdatedAt\<close> are zero and its tags have no primary key, so the store assigns them; the
  model reads none of these from its input. Every \<open>time.Now()\<close> of one repository call
  reads the same instant \<open>now\<close>, which is never the zero \<open>time.Time\<close>.

  \<open>Where(Instance{InstanceID, Region, Profile})\<close>: GORM builds a struct condition from the
  non-zero fields only, so an empty string puts no condition on its column.
\<close>

definition whereKey :: "Instance \<Rightarrow> InstanceRow \<Rightarrow> bool" where
  "whereKey i r \<longleftrightarrow>
     (InstanceID i \<noteq> [] \<longrightarrow> c_instance_id r = InstanceID i) \<and>
     (Region i \<noteq> [] \<longrightarrow> c_region r = Region i) \<and>
     (Profile i \<noteq> [] \<longrightarrow> c_profile r = Profile i)"

text \<open>
  \<open>Assign(Instance{Name, AccountID, State, Platform, LastSeen})\<close> on a row that exists:
  \<open>FirstOrCreate\<close> turns the struct into an \<open>UPDATE\<close> of its non-zero fields, and GORM
  sets \<open>updated_at\<close>.
\<close>

definition assigned :: "string \<Rightarrow> string \<Rightarrow> string" where
  "assigned new old = (if new = [] then old else new)"

definition assign :: "time \<Rightarrow> Instance \<Rightarrow> InstanceRow \<Rightarrow> InstanceRow" where
  "assign now i r =
     r\<lparr> c_name := assigned (Name i) (c_name r),
        c_account_id := assigned (AccountID i) (c_account_id r),
        c_state := assigned (State i) (c_state r),
        c_platform := assigned (Platform i) (c_platform r),
        c_last_seen := now,
        c_updated_at := now \<rparr>"

text \<open>
  \<open>Create\<close> of the record when no row matches: every field of the struct, the next
  primary key, \<open>LastSeen\<close> from the hook \<open>BeforeCreate\<close>, and GORM's two timestamps.
\<close>

definition createRow :: "time \<Rightarrow> nat \<Rightarrow> Instance \<Rightarrow> InstanceRow" where
  "createRow now k i =
     \<lparr> c_id = k, c_instance_id = InstanceID i, c_name = Name i, c_region = Region i,
       c_profile = Profile i, c_account_id = AccountID i, c_state = State i,
       c_platform = Platform i, c_last_seen = now, c_created_at = now, c_updated_at = now \<rparr>"

text \<open>
  \<open>tx.Where(...).Assign(...).FirstOrCreate(instance)\<close>: the first matching row by primary
  key is loaded into \<open>instance\<close> and updated, or the record is created. The result is
  \<open>instance.InstanceID\<close> after the call, and the store.
\<close>

definition FirstOrCreate :: "time \<Rightarrow> Instance \<Rightarrow> store \<Rightarrow> string \<times> store" where
  "FirstOrCreate now i s =
     (case firstOrdered False c_id (filter (whereKey i) (instances s)) of
        Found r \<Rightarrow>
          (c_instance_id r,
           s\<lparr> instances :=
                map (\<lambda>r'. if c_id r' = c_id r \<and> whereKey i r' then assign now i r' else r')
                  (instances s) \<rparr>)
      | _ \<Rightarrow>
          (InstanceID i,
           s\<lparr> instances := instances s @ [createRow now (next_id s) i],
              next_id := Suc (next_id s) \<rparr>))"

text \<open>
  The statements of one record inside the transaction; \<open>faults\<close> names the ones the store
  refuses.
\<close>

datatype stmt = UpsertInstance | DeleteTags | InsertTags

definition tagRow :: "Tag \<Rightarrow> TagRow" where
  "tagRow t = \<lparr> t_instance_id = TagInstanceID t, t_key = Key t, t_value = Value t \<rparr>"

text \<open>
  The body that \<open>SaveOrUpdate\<close> runs once and \<open>SaveOrUpdateBatch\<close> runs for each record.
  (GORM saves the struct's tags along with the row; the \<open>DELETE\<close> that follows removes
  them again, so the tags left are those of the \<open>DELETE\<close> and the insert.)
\<close>

definition saveRecord :: "(stmt \<Rightarrow> bool) \<Rightarrow> time \<Rightarrow> Instance \<Rightarrow> store \<Rightarrow> error + store" where
  "saveRecord faults now i s =
     (if faults UpsertInstance then Inl FailedToSaveInstance
      else
        (case FirstOrCreate now i s of (iid, s1) \<Rightarrow>
           if length (Tags i) > 0 then
             (if faults DeleteTags then Inl FailedToDeleteExistingTags
              else
                (let s2 = s1\<lparr> tags := filter (\<lambda>t. \<not> t_instance_id t = iid) (tags s1) \<rparr>;
                     newTags = map (\<lambda>tag. tag\<lparr> TagInstanceID := iid \<rparr>) (Tags i)
                 in if length newTags > 0 then
                      (if faults InsertTags then Inl FailedToSaveTags
                       else Inr (s2\<lparr> tags := tags s2 @ map tagRow newTags \<rparr>))
                    else Inr s2))
           else Inr s1))"

text \<open>\<open>DB.Transaction\<close>: commit what the body wrote, or roll back and return its error.\<close>

definition Transaction :: "(store \<Rightarrow> error + store) \<Rightarrow> store \<Rightarrow> error option \<times> store" where
  "Transaction body s = (case body s of Inl e \<Rightarrow> (Some e, s) | Inr s' \<Rightarrow> (None, s'))"

definition SaveOrUpdate ::
  "(stmt \<Rightarrow> bool) \<Rightarrow> time \<Rightarrow> Instance \<Rightarrow> store \<Rightarrow> error option \<times> store" where
  "SaveOrUpdate faults now instance s = Transaction (saveRecord faults now instance) s"

text \<open>The \<open>for\<close> loop of the batch; \<open>faults n\<close> are the faults of the \<open>n\<close>-th record.\<close>

fun saveLoop ::
  "(nat \<Rightarrow> stmt \<Rightarrow> bool) \<Rightarrow> nat \<Rightarrow> time \<Rightarrow> Instance list \<Rightarrow> store \<Rightarrow> error + store" where
  "saveLoop faults n now [] s = Inr s"
| "saveLoop faults n now (i # rest) s =
     (case saveRecord (faults n) now i s of
        Inl e \<Rightarrow> Inl e
      | Inr s' \<Rightarrow> saveLoop faults (Suc n) now rest s')"

definition SaveOrUpdateBatch ::
  "(nat \<Rightarrow> stmt \<Rightarrow> bool) \<Rightarrow> time \<Rightarrow> Instance list \<Rightarrow> store \<Rightarrow> error option \<times> store" where
  "SaveOrUpdateBatch faults now batch s =
     (if length batch = 0 then (None, s)
      else Transaction (saveLoop faults 0 now batch) s)"

section \<open>Converters (ConvertEC2Instance, ConvertSSMManagedInstance)\<close>

text \<open>
  What the converters read of the AWS SDK's \<open>ec2.types.Instance\<close> and
  \<open>ssm.types.InstanceInformation\<close>. A pointer field is an \<open>option\<close>. \<open>InstanceId\<close> and
  \<open>State\<close> of an EC2 instance are dereferenced without a check; \<open>DescribeInstances\<close> always
  sets them, and here they are plain values.
\<close>

record EC2Instance =
  ec2_InstanceId :: string
  ec2_StateName :: string
  ec2_Tags :: "(string option \<times> string option) list"
  ec2_PlatformDetails :: "string option"

record InstanceInformation =
  ssm_InstanceId :: "string option"
  ssm_PingStatus :: string
  ssm_Name :: "string option"
  ssm_ComputerName :: "string option"
  ssm_PlatformName :: "string option"

definition newInstance :: "string \<Rightarrow> string \<Rightarrow> string \<Rightarrow> string \<Rightarrow> string \<Rightarrow> Instance" where
  "newInstance instanceID region profile accountID st =
     \<lparr> ID = 0, InstanceID = instanceID, Name = [], Region = region, Profile = profile,
       AccountID = accountID, State = st, Platform = [], LastSeen = 0, CreatedAt = 0,
       UpdatedAt = 0, Tags = [] \<rparr>"

fun convertTags :: "(string option \<times> string option) list \<Rightarrow> Instance \<Rightarrow> Instance" where
  "convertTags [] instance = instance"
| "convertTags ((Some k, Some v) # rest) instance =
     convertTags rest
       ((if k = ''Name'' then instance\<lparr> Name := v \<rparr> else instance)
          \<lparr> Tags := Tags instance @ [\<lparr> TagInstanceID = [], Key = k, Value = v \<rparr>] \<rparr>)"
| "convertTags (_ # rest) instance = convertTags rest instance"

definition ConvertEC2Instance ::
  "EC2Instance \<Rightarrow> string \<Rightarrow> string \<Rightarrow> string \<Rightarrow> Instance" where
  "ConvertEC2Instance ec2Instance region profile accountID =
     (let instance =
            convertTags (ec2_Tags ec2Instance)
              (newInstance (ec2_InstanceId ec2Instance) region profile accountID
                 (ec2_StateName ec2Instance))
      in case ec2_PlatformDetails ec2Instance of
           None \<Rightarrow> instance
         | Some p \<Rightarrow> instance\<lparr> Platform := p \<rparr>)"

definition ConvertSSMManagedInstance ::
  "InstanceInformation \<Rightarrow> string \<Rightarrow> string \<Rightarrow> string \<Rightarrow> Instance" where
  "ConvertSSMManagedInstance info region profile accountID =
     (let instance =
            newInstance (case ssm_InstanceId info of Some x \<Rightarrow> x | None \<Rightarrow> [])
              region profile accountID (ssm_PingStatus info);
          fallback =
            (case ssm_ComputerName info of
               Some c \<Rightarrow> instance\<lparr> Name := c \<rparr>
             | None \<Rightarrow> instance);
          named =
            (case ssm_Name info of
               Some n \<Rightarrow> (if n \<noteq> [] then instance\<lparr> Name := n \<rparr> else fallback)
             | None \<Rightarrow> fallback)
      in case ssm_PlatformName info of
           None \<Rightarrow> named
         | Some p \<Rightarrow> named\<lparr> Platform := p \<rparr>)"

section \<open>Discovery (internal/service/discovery.go)\<close>

text \<open>
  What one unit meets outside the program: the client for (profile, region), which is its
  account id or a failure; the two paginated listings, each a list or a failure; the faults
  and the instant of each of its two batch writes; and whether \<open>semaphore.Acquire\<close> gave
  up because the context was cancelled.
\<close>

record unitEnv =
  acquireCancelled :: bool
  getClient :: "string option"
  describeInstances :: "EC2Instance list option"
  describeSSMManagedInstances :: "InstanceInformation list option"
  ec2Faults :: "nat \<Rightarrow> stmt \<Rightarrow> bool"
  ec2Now :: time
  ssmFaults :: "nat \<Rightarrow> stmt \<Rightarrow> bool"
  ssmNow :: time

text \<open>The loop that fills \<open>ssmBatch\<close> (\<open>mi-*\<close> only).\<close>

fun ssmBatchOf :: "InstanceInformation list \<Rightarrow> string \<Rightarrow> string \<Rightarrow> string \<Rightarrow> Instance list" where
  "ssmBatchOf [] region profile accountID = []"
| "ssmBatchOf (mi # rest) region profile accountID =
     (case ssm_InstanceId mi of
        None \<Rightarrow> ssmBatchOf rest region profile accountID
      | Some x \<Rightarrow>
          (if length x \<ge> 3 \<and> take 3 x = ''mi-'' then
             ConvertSSMManagedInstance mi region profile accountID
               # ssmBatchOf rest region profile accountID
           else ssmBatchOf rest region profile accountID))"

definition discoverInstancesForProfileRegion ::
  "unitEnv \<Rightarrow> string \<Rightarrow> string \<Rightarrow> store \<Rightarrow> error option \<times> log_entry list \<times> store" where
  "discoverInstancesForProfileRegion env profile region s =
     (case getClient env of
        None \<Rightarrow> (Some FailedToGetAWSClient, [], s)
      | Some accountID \<Rightarrow>
     (case describeInstances env of
        None \<Rightarrow> (Some FailedToDescribeInstances, [], s)
      | Some found \<Rightarrow>
     (let batch = map (\<lambda>ec2Instance. ConvertEC2Instance ec2Instance region profile accountID) found;
          (err1, s1) = SaveOrUpdateBatch (ec2Faults env) (ec2Now env) batch s;
          log1 = (case err1 of
                    Some e \<Rightarrow> [WarnFailedToSaveEC2InstancesBatch profile region e]
                  | None \<Rightarrow> [])
      in
     (case describeSSMManagedInstances env of
        None \<Rightarrow> (Some FailedToListSSMManagedInstances, log1, s1)
      | Some managedInstances \<Rightarrow>
     (let ssmBatch = ssmBatchOf managedInstances region profile accountID
      in if length ssmBatch > 0 then
           (let (err2, s2) = SaveOrUpdateBatch (ssmFaults env) (ssmNow env) ssmBatch s1;
                log2 = (case err2 of
                          Some e \<Rightarrow> [WarnFailedToSaveSSMInstancesBatch profile region e]
                        | None \<Rightarrow> [])
            in (None, log1 @ log2, s2))
         else (None, log1, s1))))))"

text \<open>\<open>GetEnabledRegions\<close> (internal/storage/region.go).\<close>

definition GetEnabledRegions :: "bool \<Rightarrow> store \<Rightarrow> error + string list" where
  "GetEnabledRegions fault s =
     (if fault then Inl FailedToGetEnabledRegions
      else Inr (map g_region (filter (\<lambda>g. g_enabled g = True) (regions s))))"

text \<open>
  What a run of \<open>DiscoverInstances\<close> meets: the environment of each unit, whether the
  store refuses the region query and the delete of the cleanup, the configured TTL as
  \<open>time.ParseDuration\<close> reads it (\<open>None\<close> when it does not parse), and the instant of the
  cleanup.
\<close>

record runEnv =
  unitOf :: "string \<Rightarrow> string \<Rightarrow> unitEnv"
  regionsFault :: bool
  discoveryTTL :: "duration option"
  cleanupFault :: bool
  cleanupNow :: time

text \<open>
  One goroutine of the fan-out: the error it sends to \<open>errorChan\<close> (if any), what it logs,
  and the store it leaves.
\<close>

definition goroutine ::
  "unitEnv \<Rightarrow> string \<Rightarrow> string \<Rightarrow> store \<Rightarrow> error option \<times> log_entry list \<times> store" where
  "goroutine env profile region s =
     (if acquireCancelled env then (Some (FailedToAcquireSemaphore profile region), [], s)
      else
        (case discoverInstancesForProfileRegion env profile region s of
           (Some err, lg, s') \<Rightarrow>
             (Some err, lg @ [WarnFailedToDiscoverInstances profile region err], s')
         | (None, lg, s') \<Rightarrow> (None, lg, s')))"

text \<open>
  The goroutines of all units, one after the other in the order of the two nested \<open>for\<close> statements,
  and the errors drained from \<open>errorChan\<close>. (The store serialises the transactions; the
  model lets each unit finish before the next starts.)
\<close>

fun fanOut ::
  "(string \<Rightarrow> string \<Rightarrow> unitEnv) \<Rightarrow> (string \<times> string) list \<Rightarrow> store
     \<Rightarrow> error list \<times> log_entry list \<times> store" where
  "fanOut envs [] s = ([], [], s)"
| "fanOut envs ((profile, region) # rest) s =
     (case goroutine (envs profile region) profile region s of
        (err, lg, s') \<Rightarrow>
          (case fanOut envs rest s' of
             (errors, lgs, s'') \<Rightarrow>
               ((case err of Some e \<Rightarrow> [e] | None \<Rightarrow> []) @ errors, lg @ lgs, s'')))"

definition cleanupStaleInstances ::
  "runEnv \<Rightarrow> store \<Rightarrow> error option \<times> log_entry list \<times> store" where
  "cleanupStaleInstances env s =
     (case discoveryTTL env of
        None \<Rightarrow> (Some InvalidTTLDuration, [], s)
      | Some ttlDuration \<Rightarrow> DeleteStale (cleanupFault env) (cleanupNow env) ttlDuration s)"

definition DiscoverInstances ::
  "runEnv \<Rightarrow> string list \<Rightarrow> string list \<Rightarrow> store \<Rightarrow> error option \<times> log_entry list \<times> store" where
  "DiscoverInstances env profiles regions0 s =
     (case (if length regions0 = 0 then GetEnabledRegions (regionsFault env) s
            else Inr regions0) of
        Inl e \<Rightarrow> (Some e, [], s)
      | Inr regs \<Rightarrow>
          (case fanOut (unitOf env) (concat (map (\<lambda>profile. map (Pair profile) regs) profiles)) s of
             (errors, lg, s1) \<Rightarrow>
               (case cleanupStaleInstances env s1 of
                  (cerr, clg, s2) \<Rightarrow>
                    (let lg' = lg @ clg @
                           (case cerr of
                              Some e \<Rightarrow> [WarnFailedToCleanupStaleInstances e]
                            | None \<Rightarrow> [])
                     in if length errors > 0
                        then (Some (DiscoveryCompletedWithErrors (length errors)), lg', s2)
                        else (None, lg', s2)))))"

section \<open>Vocabulary of the properties\<close>

text \<open>
  The order of the resolution policy, in the words of the specification: a lower rank
  first; within a rank the later \<open>last_seen\<close>; then the later \<open>updated_at\<close>.
\<close>

definition outranks :: "InstanceRow \<Rightarrow> InstanceRow \<Rightarrow> bool" where
  "outranks r r' \<longleftrightarrow>
     stateRank (c_state r) < stateRank (c_state r') \<or>
     stateRank (c_state r) = stateRank (c_state r') \<and>
       (c_last_seen r > c_last_seen r' \<or>
        c_last_seen r = c_last_seen r' \<and> c_updated_at r \<ge> c_updated_at r')"

text \<open>The substring before the first separator.\<close>

definition beforeDot :: "string \<Rightarrow> string" where
  "beforeDot name = takeWhile (\<lambda>c. c \<noteq> CHR ''.'') name"

text \<open>The number of records whose \<open>last_seen\<close> is older than \<open>now - ttl\<close>.\<close>

definition staleCount :: "time \<Rightarrow> duration \<Rightarrow> store \<Rightarrow> nat" where
  "staleCount now ttl s = length (filter (\<lambda>r. c_last_seen r < now - ttl) (instances s))"

text \<open>The unique key of a stored row and of a record: (instance_id, region, profile).\<close>

definition rowKey :: "InstanceRow \<Rightarrow> string \<times> string \<times> string" where
  "rowKey r = (c_instance_id r, c_region r, c_profile r)"

definition recordKey :: "Instance \<Rightarrow> string \<times> string \<times> string" where
  "recordKey i = (InstanceID i, Region i, Profile i)"

text \<open>A record names its key: none of the three key fields is the empty string.\<close>

definition keyed :: "Instance \<Rightarrow> bool" where
  "keyed i \<longleftrightarrow> InstanceID i \<noteq> [] \<and> Region i \<noteq> [] \<and> Profile i \<noteq> []"

text \<open>What the unique index \<open>idx_instance_profile_region\<close> and the primary key guarantee of the
  table \<open>instances\<close>.\<close>

definition uniqueKeys :: "store \<Rightarrow> bool" where
  "uniqueKeys s \<longleftrightarrow>
     distinct (map rowKey (instances s)) \<and> distinct (map c_id (instances s)) \<and>
     (\<forall>r \<in> set (instances s). c_id r < next_id s)"

text \<open>The stored tags of an instance id, and the tag rows a record brings.\<close>

definition storedTags :: "string \<Rightarrow> store \<Rightarrow> TagRow list" where
  "storedTags iid s = filter (\<lambda>t. t_instance_id t = iid) (tags s)"

definition newTagRows :: "Instance \<Rightarrow> TagRow list" where
  "newTagRows i =
     map (\<lambda>t. \<lparr> t_instance_id = InstanceID i, t_key = Key t, t_value = Value t \<rparr>) (Tags i)"

text \<open>The store after the body of one record when the store refuses nothing.\<close>

definition applyRecord :: "time \<Rightarrow> Instance \<Rightarrow> store \<Rightarrow> store" where
  "applyRecord now i s =
     (case saveRecord (\<lambda>st. False) now i s of Inr s' \<Rightarrow> s' | Inl e \<Rightarrow> s)"

text \<open>The table \<open>instances\<close> after \<open>FirstOrCreate\<close> of a keyed record, in terms of keys.\<close>

definition upsertRows :: "time \<Rightarrow> nat \<Rightarrow> Instance \<Rightarrow> InstanceRow list \<Rightarrow> InstanceRow list" where
  "upsertRows now k i rows =
     (if recordKey i \<in> rowKey ` set rows
      then map (\<lambda>r. if rowKey r = recordKey i then assign now i r else r) rows
      else rows @ [createRow now k i])"

text \<open>The last record of a batch that carries tags for an instance id.\<close>

definition lastTagged :: "string \<Rightarrow> Instance list \<Rightarrow> Instance option" where
  "lastTagged iid b =
     (let xs = filter (\<lambda>i. InstanceID i = iid \<and> Tags i \<noteq> []) b
      in if xs = [] then None else Some (last xs))"

text \<open>All the assignments of a batch to one row, and the values a batch assigns to a column.\<close>

definition assignAll :: "time \<Rightarrow> Instance list \<Rightarrow> InstanceRow \<Rightarrow> InstanceRow" where
  "assignAll now b r = fold (\<lambda>i r'. if rowKey r' = recordKey i then assign now i r' else r') b r"

definition assignedValues ::
  "(Instance \<Rightarrow> string) \<Rightarrow> Instance list \<Rightarrow> string \<times> string \<times> string \<Rightarrow> string list" where
  "assignedValues F b k = filter (\<lambda>v. v \<noteq> []) (map F (filter (\<lambda>i. recordKey i = k) b))"

text \<open>The columns of a row that are not timestamps.\<close>

definition nonTimestamp ::
  "InstanceRow \<Rightarrow> nat \<times> string \<times> string \<times> string \<times> string \<times> string \<times> string \<times> string" where
  "nonTimestamp r =
     (c_id r, c_instance_id r, c_name r, c_region r, c_profile r, c_account_id r, c_state r,
      c_platform r)"

text \<open>An agent-source entry whose instance identifier carries the agent-managed prefix.\<close>

definition agentManaged :: "InstanceInformation \<Rightarrow> bool" where
  "agentManaged mi = (case ssm_InstanceId mi of Some x \<Rightarrow> take 3 x = ''mi-'' | None \<Rightarrow> False)"

text \<open>The warning a unit logs when the store refuses a batch.\<close>

definition warnEC2 :: "string \<Rightarrow> string \<Rightarrow> error option \<Rightarrow> log_entry list" where
  "warnEC2 profile region e =
     (case e of Some x \<Rightarrow> [WarnFailedToSaveEC2InstancesBatch profile region x] | None \<Rightarrow> [])"

definition warnSSM :: "string \<Rightarrow> string \<Rightarrow> error option \<Rightarrow> log_entry list" where
  "warnSSM profile region e =
     (case e of Some x \<Rightarrow> [WarnFailedToSaveSSMInstancesBatch profile region x] | None \<Rightarrow> [])"

text \<open>The keys a unit writes for its compute-source instances and for its agent-managed entries.\<close>

definition computeKeys :: "EC2Instance list \<Rightarrow> string \<Rightarrow> string \<Rightarrow> (string \<times> string \<times> string) set" where
  "computeKeys found region profile = (\<lambda>e. (ec2_InstanceId e, region, profile)) ` set found"

definition agentKeys ::
  "InstanceInformation list \<Rightarrow> string \<Rightarrow> string \<Rightarrow> (string \<times> string \<times> string) set" where
  "agentKeys managed region profile =
     (\<lambda>mi. (case ssm_InstanceId mi of Some x \<Rightarrow> x | None \<Rightarrow> [], region, profile)) `
       set (filter agentManaged managed)"

text \<open>A unit fails when its slot acquisition is cancelled or one of its remote calls fails.\<close>

definition unitFailed :: "unitEnv \<Rightarrow> bool" where
  "unitFailed e \<longleftrightarrow>
     acquireCancelled e \<or> getClient e = None \<or> describeInstances e = None \<or>
     describeSSMManagedInstances e = None"

text \<open>The units of a run, in the order of the nested iteration, and the number of them that fail.\<close>

definition unitsOf :: "string list \<Rightarrow> string list \<Rightarrow> (string \<times> string) list" where
  "unitsOf profiles regs = concat (map (\<lambda>profile. map (Pair profile) regs) profiles)"

definition failedUnits :: "runEnv \<Rightarrow> (string \<times> string) list \<Rightarrow> nat" where
  "failedUnits env units = length (filter (\<lambda>(p, r). unitFailed (unitOf env p r)) units)"

text \<open>
  An instant is not before a bound, when there is one; a row with the key is stored, with
  its \<open>last_seen\<close> not before the bound.
\<close>

definition notBefore :: "time option \<Rightarrow> time \<Rightarrow> bool" where
  "notBefore c now = (case c of None \<Rightarrow> True | Some x \<Rightarrow> x \<le> now)"

definition present :: "time option \<Rightarrow> store \<Rightarrow> string \<times> string \<times> string \<Rightarrow> bool" where
  "present c s k \<longleftrightarrow>
     (\<exists>r \<in> set (instances s). rowKey r = k \<and> notBefore c (c_last_seen r))"


text \<open>The cutoff of the cleanup at the end of a run, and: no write of the run is older than it.\<close>

definition evictionCutoff :: "runEnv \<Rightarrow> time option" where
  "evictionCutoff env =
     (case discoveryTTL env of Some t \<Rightarrow> Some (cleanupNow env - t) | None \<Rightarrow> None)"

definition freshAtCleanup :: "runEnv \<Rightarrow> (string \<times> string) list \<Rightarrow> bool" where
  "freshAtCleanup env units =
     (case discoveryTTL env of
        None \<Rightarrow> True
      | Some t \<Rightarrow>
          list_all (\<lambda>(p, r). cleanupNow env - t \<le> ec2Now (unitOf env p r) \<and>
                            cleanupNow env - t \<le> ssmNow (unitOf env p r)) units)"

section \<open>Example stores\<close>

definition exRow :: "nat \<Rightarrow> string \<Rightarrow> string \<Rightarrow> string \<Rightarrow> time \<Rightarrow> time \<Rightarrow> InstanceRow" where
  "exRow i iid nm st seen upd =
     \<lparr> c_id = i, c_instance_id = iid, c_name = nm, c_region = ''us-east-1'',
       c_profile = ''default'', c_account_id = ''123456789012'', c_state = st,
       c_platform = ''Linux'', c_last_seen = seen, c_created_at = 0, c_updated_at = upd \<rparr>"

definition exTag :: "string \<Rightarrow> string \<Rightarrow> string \<Rightarrow> TagRow" where
  "exTag iid k v = \<lparr> t_instance_id = iid, t_key = k, t_value = v \<rparr>"

definition emptyStore :: store where
  "emptyStore = \<lparr> instances = [], tags = [], next_id = 1, regions = [] \<rparr>"

definition webStore :: store where
  "webStore =
     \<lparr> instances =
         [exRow 1 ''mi-01'' ''web'' ''ConnectionLost'' 50 50,
          exRow 2 ''i-02'' ''web'' ''running'' 40 40,
          exRow 3 ''mi-03'' ''web'' ''Online'' 10 10,
          exRow 4 ''i-04'' ''db01'' ''running'' 20 20,
          exRow 5 ''i-05'' [] ''stopped'' 30 30],
       tags = [exTag ''i-02'' ''Name'' ''web'', exTag ''mi-03'' ''Env'' ''prod'',
               exTag ''i-04'' ''Name'' ''db01''],
       next_id = 6, regions = [] \<rparr>"

definition exInstance :: "string \<Rightarrow> string \<Rightarrow> string \<Rightarrow> (string \<times> string) list \<Rightarrow> Instance" where
  "exInstance iid nm st kvs =
     \<lparr> ID = 0, InstanceID = iid, Name = nm, Region = ''us-east-1'', Profile = ''default'',
       AccountID = ''123456789012'', State = st, Platform = ''Linux'', LastSeen = 0,
       CreatedAt = 0, UpdatedAt = 0,
       Tags = map (\<lambda>(k, v). \<lparr> TagInstanceID = [], Key = k, Value = v \<rparr>) kvs \<rparr>"

definition exBatch :: "Instance list" where
  "exBatch =
     [exInstance ''i-09'' [] ''running'' [(''Env'', ''prod'')],
      exInstance ''i-04'' [] ''stopped'' [],
      exInstance ''i-09'' ''api'' [] []]"

definition exEC2 :: "string \<Rightarrow> string \<Rightarrow> string \<Rightarrow> EC2Instance" where
  "exEC2 iid nm st =
     \<lparr> ec2_InstanceId = iid, ec2_StateName = st,
       ec2_Tags = [(Some ''Name'', Some nm), (Some ''Env'', Some ''prod'')],
       ec2_PlatformDetails = Some ''Linux/UNIX'' \<rparr>"

definition exSSM :: "string \<Rightarrow> string \<Rightarrow> string \<Rightarrow> InstanceInformation" where
  "exSSM iid nm st =
     \<lparr> ssm_InstanceId = Some iid, ssm_PingStatus = st, ssm_Name = Some nm,
       ssm_ComputerName = Some (nm @ ''.internal''), ssm_PlatformName = Some ''Ubuntu'' \<rparr>"

definition exUnit :: unitEnv where
  "exUnit =
     \<lparr> acquireCancelled = False, getClient = Some ''123456789012'',
       describeInstances = Some [exEC2 ''i-abc'' ''web'' ''running''],
       describeSSMManagedInstances =
         Some [exSSM ''i-abc'' ''web'' ''Online'', exSSM ''mi-xyz'' ''edge'' ''Online''],
       ec2Faults = (\<lambda>n st. False), ec2Now = 70,
       ssmFaults = (\<lambda>n st. False), ssmNow = 71 \<rparr>"

definition exUnitSSMRefused :: unitEnv where
  "exUnitSSMRefused = exUnit\<lparr> ssmFaults := (\<lambda>n st. n = 0 \<and> st = UpsertInstance) \<rparr>"

definition exRun :: runEnv where
  "exRun =
     \<lparr> unitOf = (\<lambda>p r. if r = ''us-east-1'' then exUnit else exUnit\<lparr> describeInstances := None \<rparr>),
       regionsFault = False, discoveryTTL = Some 60, cleanupFault = False, cleanupNow = 100 \<rparr>"

section \<open>Resolution: FindByName\<close>

lemma arg_min_list_le: "xs \<noteq> [] \<Longrightarrow> x \<in> set xs \<Longrightarrow> k (arg_min_list k xs) \<le> k x"
  by (simp add: f_arg_min_list_f)

lemma firstOrdered_Found:
  assumes "rs \<noteq> []"
  shows "\<exists>r \<in> set rs. firstOrdered False k rs = Found r \<and> (\<forall>r' \<in> set rs. k r \<le> k r')"
  using assms arg_min_list_in[OF assms, of k] arg_min_list_le[OF assms, of _ k]
  by (auto simp: firstOrdered_def)

lemma orderExpr_le: "orderExpr r \<le> orderExpr r' \<Longrightarrow> outranks r r'"
  by (auto simp: orderExpr_def outranks_def)



lemma indexOfDotFrom_eq:
  "indexOfDotFrom i s =
     (if CHR ''.'' \<in> set s then int i + int (length (takeWhile (\<lambda>c. c \<noteq> CHR ''.'') s)) else - 1)"
  by (induction s arbitrary: i) auto

lemma indexOfDot_eq:
  "indexOfDot s =
     (if CHR ''.'' \<in> set s then int (length (takeWhile (\<lambda>c. c \<noteq> CHR ''.'') s)) else - 1)"
  by (simp add: indexOfDot_def indexOfDotFrom_eq)

lemma take_length_takeWhile: "take (length (takeWhile P xs)) xs = takeWhile P xs"
  by (induction xs) auto




section \<open>Eviction: DeleteStale\<close>




section \<open>Listing and lookup: tags\<close>

text \<open>
  C10. With the store answering, every record that \<open>List\<close> returns is the scan of a stored
  row that passes the filter and carries no tags, whatever tags are stored for it; a record
  that \<open>FindByName\<close> or \<open>FindByID\<close> returns carries the stored tags of its instance id.
\<close>

theorem List_omits_tags_Find_loads_tags:
  "(\<exists>xs. List False s flt = Inr xs \<and>
      (\<forall>i \<in> set xs. Tags i = [] \<and> (\<exists>r \<in> set (instances s). listWhere flt r \<and> i = scan r)) \<and>
      length xs = length (filter (listWhere flt) (instances s))) \<and>
   (\<forall>i. FindByName fault1 fault2 s name = Inr (Some i) \<longrightarrow>
      Tags i = map scanTag (filter (\<lambda>t. t_instance_id t = InstanceID i) (tags s))) \<and>
   (\<forall>i. FindByID fault s instanceID = Inr (Some i) \<longrightarrow>
      Tags i = map scanTag (filter (\<lambda>t. t_instance_id t = InstanceID i) (tags s)))"
proof -
  have pre: "\<And>r. Tags (preloadTags s (scan r)) =
      map scanTag (filter (\<lambda>t. t_instance_id t = InstanceID (preloadTags s (scan r))) (tags s))"
    by (simp add: preloadTags_def)
  have l: "\<exists>xs. List False s flt = Inr xs \<and>
      (\<forall>i \<in> set xs. Tags i = [] \<and> (\<exists>r \<in> set (instances s). listWhere flt r \<and> i = scan r)) \<and>
      length xs = length (filter (listWhere flt) (instances s))"
    by (auto simp: List_def scan_def)
  have n: "\<forall>i. FindByName fault1 fault2 s name = Inr (Some i) \<longrightarrow>
      Tags i = map scanTag (filter (\<lambda>t. t_instance_id t = InstanceID i) (tags s))"
    using pre
    by (auto simp: FindByName_def firstByName_def Let_def split: first.splits if_splits)
  have d: "\<forall>i. FindByID fault s instanceID = Inr (Some i) \<longrightarrow>
      Tags i = map scanTag (filter (\<lambda>t. t_instance_id t = InstanceID i) (tags s))"
    using pre
    by (auto simp: FindByID_def split: first.splits)
  show ?thesis using l n d by blast
qed

theorem List_omits_tags_Find_loads_tags_witness:
  "List False webStore
     (Some \<lparr> f_Profile = None, f_Region = None, f_Name = Some ''DB'', f_State = None \<rparr>) =
     Inr [scan (exRow 4 ''i-04'' ''db01'' ''running'' 20 20)] \<and>
   Tags (scan (exRow 4 ''i-04'' ''db01'' ''running'' 20 20)) = [] \<and>
   FindByName False False webStore ''db01'' =
     Inr (Some ((scan (exRow 4 ''i-04'' ''db01'' ''running'' 20 20))
       \<lparr> Tags := [\<lparr> TagInstanceID = ''i-04'', Key = ''Name'', Value = ''db01'' \<rparr>] \<rparr>)) \<and>
   FindByID False webStore ''i-04'' =
     Inr (Some ((scan (exRow 4 ''i-04'' ''db01'' ''running'' 20 20))
       \<lparr> Tags := [\<lparr> TagInstanceID = ''i-04'', Key = ''Name'', Value = ''db01'' \<rparr>] \<rparr>))"
proof -
  have l: "List False webStore
     (Some \<lparr> f_Profile = None, f_Region = None, f_Name = Some ''DB'', f_State = None \<rparr>) =
     Inr [scan (exRow 4 ''i-04'' ''db01'' ''running'' 20 20)]"
    by code_simp
  have n: "FindByName False False webStore ''db01'' =
     Inr (Some ((scan (exRow 4 ''i-04'' ''db01'' ''running'' 20 20))
       \<lparr> Tags := [\<lparr> TagInstanceID = ''i-04'', Key = ''Name'', Value = ''db01'' \<rparr>] \<rparr>))"
    by code_simp
  have d: "FindByID False webStore ''i-04'' =
     Inr (Some ((scan (exRow 4 ''i-04'' ''db01'' ''running'' 20 20))
       \<lparr> Tags := [\<lparr> TagInstanceID = ''i-04'', Key = ''Name'', Value = ''db01'' \<rparr>] \<rparr>))"
    by code_simp
  show ?thesis
    using List_omits_tags_Find_loads_tags[of webStore
        "Some \<lparr> f_Profile = None, f_Region = None, f_Name = Some ''DB'', f_State = None \<rparr>"
        False False "''db01''" False "''i-04''"] l n d
    by (simp add: scan_def)
qed

section \<open>Upsert: SaveOrUpdate and SaveOrUpdateBatch\<close>

lemma whereKey_keyed: "keyed i \<Longrightarrow> whereKey i r \<longleftrightarrow> rowKey r = recordKey i"
  by (auto simp: keyed_def whereKey_def rowKey_def recordKey_def)

lemma filter_distinct_key:
  "distinct (map f xs) \<Longrightarrow> x \<in> set xs \<Longrightarrow> filter (\<lambda>y. f y = f x) xs = [x]"
proof (induction xs)
  case Nil
  then show ?case by simp
next
  case (Cons a xs)
  show ?case
  proof (cases "a = x")
    case True
    have "f x \<notin> f ` set xs"
      using Cons.prems(1) True by simp
    then have "filter (\<lambda>y. f y = f x) xs = []"
      unfolding filter_empty_conv by (metis image_eqI)
    then show ?thesis using True by simp
  next
    case False
    then have "x \<in> set xs" using Cons.prems(2) by simp
    moreover have "f a \<noteq> f x" using Cons.prems(1) calculation by auto
    ultimately show ?thesis using Cons by simp
  qed
qed

lemma rowKey_assign [simp]: "rowKey (assign now i r) = rowKey r"
  by (simp add: rowKey_def assign_def)

lemma c_id_assign [simp]: "c_id (assign now i r) = c_id r"
  by (simp add: assign_def)

lemma rowKey_createRow [simp]: "rowKey (createRow now k i) = recordKey i"
  by (simp add: rowKey_def recordKey_def createRow_def)

lemma c_id_createRow [simp]: "c_id (createRow now k i) = k"
  by (simp add: createRow_def)

lemma FirstOrCreate_keyed:
  assumes k: "keyed i" and d: "distinct (map rowKey (instances s))"
  shows "FirstOrCreate now i s =
           (InstanceID i,
            s\<lparr> instances := upsertRows now (next_id s) i (instances s),
               next_id := (if recordKey i \<in> rowKey ` set (instances s)
                           then next_id s else Suc (next_id s)) \<rparr>)"
proof (cases "recordKey i \<in> rowKey ` set (instances s)")
  case True
  then obtain r0 where r0: "r0 \<in> set (instances s)" "rowKey r0 = recordKey i" by auto
  have w: "whereKey i = (\<lambda>y. rowKey y = rowKey r0)"
    using r0(2) by (auto simp: fun_eq_iff whereKey_keyed[OF k])
  have f: "filter (whereKey i) (instances s) = [r0]"
    using filter_distinct_key[OF d r0(1)] by (simp add: w)
  have iid: "c_instance_id r0 = InstanceID i"
    using r0(2) by (simp add: rowKey_def recordKey_def)
  have m: "map (\<lambda>r'. if c_id r' = c_id r0 \<and> whereKey i r' then assign now i r' else r') (instances s) =
           map (\<lambda>r. if rowKey r = recordKey i then assign now i r else r) (instances s)"
  proof (rule map_cong[OF refl])
    fix r' assume r': "r' \<in> set (instances s)"
    have "rowKey r' = recordKey i \<Longrightarrow> r' = r0"
      using d r' r0 by (metis distinct_map inj_onD)
    then show "(if c_id r' = c_id r0 \<and> whereKey i r' then assign now i r' else r') =
               (if rowKey r' = recordKey i then assign now i r' else r')"
      by (auto simp: whereKey_keyed[OF k])
  qed
  show ?thesis
    using True by (simp add: FirstOrCreate_def firstOrdered_def f iid m upsertRows_def)
next
  case False
  then have "filter (whereKey i) (instances s) = []"
    by (force simp: filter_empty_conv whereKey_keyed[OF k])
  then show ?thesis
    using False by (simp add: FirstOrCreate_def firstOrdered_def upsertRows_def)
qed

lemma FirstOrCreate_iid:
  assumes "InstanceID i \<noteq> []"
  shows "fst (FirstOrCreate now i s) = InstanceID i \<and> tags (snd (FirstOrCreate now i s)) = tags s"
proof (cases "filter (whereKey i) (instances s) = []")
  case True
  then show ?thesis by (simp add: FirstOrCreate_def firstOrdered_def)
next
  case False
  then have "arg_min_list c_id (filter (whereKey i) (instances s)) \<in> set (filter (whereKey i) (instances s))"
    by (rule arg_min_list_in)
  then have "whereKey i (arg_min_list c_id (filter (whereKey i) (instances s)))" by simp
  then show ?thesis
    using False assms by (simp add: FirstOrCreate_def firstOrdered_def whereKey_def)
qed

lemma saveRecord_ok:
  "saveRecord (\<lambda>st. False) now i s = Inr (applyRecord now i s)"
  by (simp add: applyRecord_def saveRecord_def Let_def split: prod.splits)

lemma saveLoop_ok:
  "saveLoop (\<lambda>n st. False) n now b s = Inr (fold (applyRecord now) b s)"
  by (induction b arbitrary: n s) (simp_all add: saveRecord_ok)

lemma tags_applyRecord:
  assumes "InstanceID i \<noteq> []"
  shows "tags (applyRecord now i s) =
           (if Tags i = [] then tags s
            else filter (\<lambda>t. \<not> t_instance_id t = InstanceID i) (tags s) @ newTagRows i)"
  using FirstOrCreate_iid[OF assms, of now s]
  by (auto simp: applyRecord_def saveRecord_def Let_def newTagRows_def tagRow_def comp_def
           split: prod.splits)

lemma instances_applyRecord:
  "instances (applyRecord now i s) = instances (snd (FirstOrCreate now i s)) \<and>
   next_id (applyRecord now i s) = next_id (snd (FirstOrCreate now i s))"
  by (auto simp: applyRecord_def saveRecord_def Let_def split: prod.splits)

lemma lastTagged_snoc:
  "lastTagged iid (b @ [i]) =
     (if InstanceID i = iid \<and> Tags i \<noteq> [] then Some i else lastTagged iid b)"
  by (simp add: lastTagged_def Let_def)

lemma storedTags_newTagRows:
  "filter (\<lambda>t. t_instance_id t = iid) (newTagRows i) =
     (if iid = InstanceID i then newTagRows i else [])"
  by (auto simp: newTagRows_def filter_empty_conv intro: filter_True)

lemma storedTags_applyRecord:
  assumes "InstanceID i \<noteq> []"
  shows "storedTags iid (applyRecord now i s) =
           (if Tags i \<noteq> [] \<and> iid = InstanceID i then newTagRows i else storedTags iid s)"
proof -
  have "filter (\<lambda>t. t_instance_id t = iid) (filter (\<lambda>t. \<not> t_instance_id t = InstanceID i) (tags s)) =
        (if iid = InstanceID i then [] else filter (\<lambda>t. t_instance_id t = iid) (tags s))"
    by (auto simp: filter_empty_conv intro: filter_cong)
  then show ?thesis
    by (simp add: storedTags_def tags_applyRecord[OF assms] storedTags_newTagRows)
qed

lemma storedTags_fold:
  assumes "\<forall>j \<in> set b. InstanceID j \<noteq> []"
  shows "storedTags iid (fold (applyRecord now) b s) =
           (case lastTagged iid b of None \<Rightarrow> storedTags iid s | Some i \<Rightarrow> newTagRows i)"
  using assms
proof (induction b rule: rev_induct)
  case Nil
  then show ?case by (simp add: lastTagged_def)
next
  case (snoc i b)
  then show ?case
    by (auto simp: storedTags_applyRecord lastTagged_snoc)
qed

lemma SaveOrUpdate_ok:
  "SaveOrUpdate (\<lambda>st. False) now i s = (None, applyRecord now i s)"
  by (simp add: SaveOrUpdate_def Transaction_def saveRecord_ok)

lemma SaveOrUpdateBatch_ok:
  "SaveOrUpdateBatch (\<lambda>n st. False) now b s = (None, fold (applyRecord now) b s)"
  by (simp add: SaveOrUpdateBatch_def Transaction_def saveLoop_ok)

text \<open>
  C2. When the store refuses nothing, upserting a record with a (non-empty) instance id
  that carries zero tags leaves the table of tags as it was, and upserting one that carries
  one or more tags leaves, as the stored tags of that instance id, exactly the tags of the
  record: the old ones are gone; the tags of every other instance id stay. This holds for
  \<open>SaveOrUpdate\<close>; for \<open>SaveOrUpdateBatch\<close> the stored tags of every instance id are
  afterwards those of the last record of the batch that carries tags for it, and unchanged
  when no record does. (An instance id is never empty in a record built from what AWS
  reports; GORM leaves an empty field out of the condition of \<open>Where\<close>.)
\<close>

theorem upsert_tags:
  assumes "InstanceID i \<noteq> []" and "\<forall>j \<in> set b. InstanceID j \<noteq> []"
  shows "(\<exists>s'. SaveOrUpdate (\<lambda>st. False) now i s = (None, s') \<and>
            (Tags i = [] \<longrightarrow> tags s' = tags s) \<and>
            (Tags i \<noteq> [] \<longrightarrow> storedTags (InstanceID i) s' = newTagRows i) \<and>
            (\<forall>iid. iid \<noteq> InstanceID i \<longrightarrow> storedTags iid s' = storedTags iid s)) \<and>
         (\<exists>s'. SaveOrUpdateBatch (\<lambda>n st. False) now b s = (None, s') \<and>
            (\<forall>iid. storedTags iid s' =
               (case lastTagged iid b of
                  None \<Rightarrow> storedTags iid s
                | Some j \<Rightarrow> newTagRows j)))"
proof -
  have one: "Tags i = [] \<longrightarrow> tags (applyRecord now i s) = tags s"
    by (simp add: tags_applyRecord[OF assms(1)])
  have two: "Tags i \<noteq> [] \<longrightarrow> storedTags (InstanceID i) (applyRecord now i s) = newTagRows i"
    by (simp add: storedTags_applyRecord[OF assms(1)])
  have three: "\<forall>iid. iid \<noteq> InstanceID i \<longrightarrow>
      storedTags iid (applyRecord now i s) = storedTags iid s"
    by (simp add: storedTags_applyRecord[OF assms(1)])
  show ?thesis
    using one two three storedTags_fold[OF assms(2)]
    by (simp add: SaveOrUpdate_ok SaveOrUpdateBatch_ok)
qed

theorem upsert_tags_witness:
  "storedTags ''i-04'' webStore = [exTag ''i-04'' ''Name'' ''db01''] \<and>
   tags (snd (SaveOrUpdate (\<lambda>st. False) 70 (exInstance ''i-04'' ''db01'' ''Online'' []) webStore)) =
     tags webStore \<and>
   storedTags ''i-04''
     (snd (SaveOrUpdate (\<lambda>st. False) 70
        (exInstance ''i-04'' ''db01'' ''running'' [(''Env'', ''prod'')]) webStore)) =
     [exTag ''i-04'' ''Env'' ''prod''] \<and>
   storedTags ''i-04''
     (snd (SaveOrUpdateBatch (\<lambda>n st. False) 70
        [exInstance ''i-04'' ''db01'' ''running'' [(''Env'', ''prod'')],
         exInstance ''i-04'' ''db01'' ''Online'' []] webStore)) =
     [exTag ''i-04'' ''Env'' ''prod'']"
proof -
  have a: "InstanceID (exInstance ''i-04'' ''db01'' ''Online'' []) \<noteq> []"
          "InstanceID (exInstance ''i-04'' ''db01'' ''running'' [(''Env'', ''prod'')]) \<noteq> []"
    by (simp_all add: exInstance_def)
  have b: "\<forall>j \<in> set [exInstance ''i-04'' ''db01'' ''running'' [(''Env'', ''prod'')],
         exInstance ''i-04'' ''db01'' ''Online'' []]. InstanceID j \<noteq> []"
    by (simp add: exInstance_def)
  have t: "storedTags ''i-04'' webStore = [exTag ''i-04'' ''Name'' ''db01'']"
    by code_simp
  have n: "newTagRows (exInstance ''i-04'' ''db01'' ''running'' [(''Env'', ''prod'')]) =
      [exTag ''i-04'' ''Env'' ''prod'']"
    by code_simp
  have e: "Tags (exInstance ''i-04'' ''db01'' ''Online'' []) = []"
      "Tags (exInstance ''i-04'' ''db01'' ''running'' [(''Env'', ''prod'')]) \<noteq> []"
    by (simp_all add: exInstance_def)
  have l: "lastTagged ''i-04'' [exInstance ''i-04'' ''db01'' ''running'' [(''Env'', ''prod'')],
         exInstance ''i-04'' ''db01'' ''Online'' []] =
      Some (exInstance ''i-04'' ''db01'' ''running'' [(''Env'', ''prod'')])"
    by (simp add: lastTagged_def exInstance_def)
  show ?thesis
    using upsert_tags[OF a(1) b, where now = 70 and s = webStore]
      upsert_tags[OF a(2) b, where now = 70 and s = webStore]
      t n e l
    by (auto simp: exInstance_def dest: spec[where x = "''i-04''"])
qed

lemma applyRecord_keyed:
  assumes "keyed i" and "distinct (map rowKey (instances s))"
  shows "instances (applyRecord now i s) = upsertRows now (next_id s) i (instances s)"
    and "next_id (applyRecord now i s) =
           (if recordKey i \<in> rowKey ` set (instances s) then next_id s else Suc (next_id s))"
  using instances_applyRecord[of now i s] FirstOrCreate_keyed[OF assms, of now]
  by simp_all

lemma upsertRows_cases:
  assumes "r \<in> set (upsertRows now k i rows)"
  shows "(\<exists>r' \<in> set rows. rowKey r' = recordKey i \<and> r = assign now i r') \<or>
         (r \<in> set rows \<and> rowKey r \<noteq> recordKey i) \<or>
         (r = createRow now k i \<and> recordKey i \<notin> rowKey ` set rows)"
proof (cases "recordKey i \<in> rowKey ` set rows")
  case True
  then show ?thesis using assms by (auto simp: upsertRows_def)
next
  case False
  then have "\<And>x. x \<in> set rows \<Longrightarrow> rowKey x \<noteq> recordKey i" by force
  then show ?thesis using assms False by (auto simp: upsertRows_def)
qed

lemma map_rowKey_assigns:
  "map rowKey (map (\<lambda>r. if rowKey r = k then assign now i r else r) rows) = map rowKey rows"
  by (induction rows) auto

lemma map_c_id_assigns:
  "map c_id (map (\<lambda>r. if rowKey r = k then assign now i r else r) rows) = map c_id rows"
  by (induction rows) auto

lemma map_rowKey_upsertRows:
  "map rowKey (upsertRows now k i rows) =
     (if recordKey i \<in> rowKey ` set rows then map rowKey rows else map rowKey rows @ [recordKey i])"
  unfolding upsertRows_def using map_rowKey_assigns[of "recordKey i" now i rows] by simp

lemma map_c_id_upsertRows:
  "map c_id (upsertRows now k i rows) =
     (if recordKey i \<in> rowKey ` set rows then map c_id rows else map c_id rows @ [k])"
  unfolding upsertRows_def using map_c_id_assigns[of "recordKey i" now i rows] by simp

lemma keys_upsertRows:
  "rowKey ` set (upsertRows now k i rows) = insert (recordKey i) (rowKey ` set rows)"
proof -
  have "rowKey ` set (upsertRows now k i rows) = set (map rowKey (upsertRows now k i rows))"
    by simp
  also have "\<dots> = insert (recordKey i) (rowKey ` set rows)"
    unfolding map_rowKey_upsertRows by auto
  finally show ?thesis .
qed

lemma uniqueKeys_applyRecord:
  assumes u: "uniqueKeys s" and k: "keyed i"
  shows "uniqueKeys (applyRecord now i s)"
proof -
  have d: "distinct (map rowKey (instances s))" using u by (simp add: uniqueKeys_def)
  have lt: "\<forall>r \<in> set (instances s). c_id r < next_id s" using u by (simp add: uniqueKeys_def)
  then have fresh: "next_id s \<notin> c_id ` set (instances s)" by auto
  show ?thesis
    unfolding uniqueKeys_def
  proof (intro conjI ballI)
    show "distinct (map rowKey (instances (applyRecord now i s)))"
      using d by (simp add: applyRecord_keyed(1)[OF k d] map_rowKey_upsertRows)
    show "distinct (map c_id (instances (applyRecord now i s)))"
      using u fresh by (simp add: applyRecord_keyed(1)[OF k d] map_c_id_upsertRows uniqueKeys_def)
    fix r assume "r \<in> set (instances (applyRecord now i s))"
    then have r: "r \<in> set (upsertRows now (next_id s) i (instances s))"
      by (simp add: applyRecord_keyed(1)[OF k d])
    show "c_id r < next_id (applyRecord now i s)"
      using upsertRows_cases[OF r] lt by (auto simp: applyRecord_keyed(2)[OF k d])
  qed
qed

lemma uniqueKeys_fold:
  "uniqueKeys s \<Longrightarrow> \<forall>i \<in> set b. keyed i \<Longrightarrow> uniqueKeys (fold (applyRecord now) b s)"
  by (induction b arbitrary: s) (simp_all add: uniqueKeys_applyRecord)

lemma keys_applyRecord:
  assumes "uniqueKeys s" and "keyed i"
  shows "rowKey ` set (instances (applyRecord now i s)) =
           insert (recordKey i) (rowKey ` set (instances s))"
  using assms by (simp add: applyRecord_keyed(1) uniqueKeys_def keys_upsertRows)

lemma keys_fold:
  "uniqueKeys s \<Longrightarrow> \<forall>i \<in> set b. keyed i \<Longrightarrow>
   rowKey ` set (instances (fold (applyRecord now) b s)) =
     recordKey ` set b \<union> rowKey ` set (instances s)"
proof (induction b arbitrary: s)
  case Nil
  then show ?case by simp
next
  case (Cons i b)
  have u: "uniqueKeys (applyRecord now i s)"
    using Cons.prems by (simp add: uniqueKeys_applyRecord)
  show ?case
    using Cons.IH[OF u] Cons.prems by (auto simp: keys_applyRecord)
qed

lemma rowKey_assignAll [simp]: "rowKey (assignAll now b r) = rowKey r"
  unfolding assignAll_def by (induction b arbitrary: r) auto

lemma c_id_assignAll [simp]: "c_id (assignAll now b r) = c_id r"
  unfolding assignAll_def by (induction b arbitrary: r) auto

lemma assignAll_Cons:
  "assignAll now (i # b) r =
     assignAll now b (if rowKey r = recordKey i then assign now i r else r)"
  by (simp add: assignAll_def)

lemma assignAll_snoc:
  "assignAll now (b @ [i]) r =
     (if rowKey r = recordKey i then assign now i (assignAll now b r) else assignAll now b r)"
  using rowKey_assignAll[of now b r] by (simp add: assignAll_def)

text \<open>When every key of the batch is stored already, the batch only assigns.\<close>

lemma instances_fold_present:
  "uniqueKeys s \<Longrightarrow> \<forall>i \<in> set b. keyed i \<Longrightarrow>
   recordKey ` set b \<subseteq> rowKey ` set (instances s) \<Longrightarrow>
   instances (fold (applyRecord now) b s) = map (assignAll now b) (instances s)"
proof (induction b arbitrary: s)
  case Nil
  then show ?case by (simp add: assignAll_def)
next
  case (Cons i b)
  have d: "distinct (map rowKey (instances s))" using Cons.prems(1) by (simp add: uniqueKeys_def)
  have k: "keyed i" using Cons.prems(2) by simp
  have u: "uniqueKeys (applyRecord now i s)"
    using Cons.prems by (simp add: uniqueKeys_applyRecord)
  have p: "recordKey i \<in> rowKey ` set (instances s)" using Cons.prems(3) by simp
  have st: "instances (applyRecord now i s) =
      map (\<lambda>r. if rowKey r = recordKey i then assign now i r else r) (instances s)"
    using p by (simp add: applyRecord_keyed(1)[OF k d] upsertRows_def)
  have sub: "recordKey ` set b \<subseteq> rowKey ` set (instances (applyRecord now i s))"
    using Cons.prems(3) by (auto simp: keys_applyRecord[OF Cons.prems(1) k])
  have "instances (fold (applyRecord now) (i # b) s) =
        map (assignAll now b) (instances (applyRecord now i s))"
    using Cons.IH[OF u _ sub] Cons.prems(2) by simp
  also have "\<dots> = map (assignAll now (i # b)) (instances s)"
    by (simp add: st assignAll_Cons comp_def)
  finally show ?case .
qed

lemma assignedValues_snoc:
  "assignedValues F (b @ [i]) k =
     assignedValues F b k @ (if recordKey i = k \<and> F i \<noteq> [] then [F i] else [])"
  by (simp add: assignedValues_def)

lemma assignedValues_absent:
  "k \<notin> recordKey ` set b \<Longrightarrow> assignedValues F b k = []"
  by (auto simp: assignedValues_def filter_empty_conv)

text \<open>A column that \<open>Assign\<close> writes from the field \<open>F\<close> holds the last non-empty value.\<close>

lemma assignAll_field:
  assumes fa: "\<And>now i r. f (assign now i r) = assigned (F i) (f r)"
  shows "f (assignAll now b r) =
           (if assignedValues F b (rowKey r) = [] then f r
            else last (assignedValues F b (rowKey r)))"
proof (induction b rule: rev_induct)
  case Nil
  then show ?case by (simp add: assignAll_def assignedValues_def)
next
  case (snoc i b)
  then show ?case
    by (auto simp: assignAll_snoc assignedValues_snoc fa assigned_def)
qed

lemma fold_field:
  assumes fa: "\<And>now i r. f (assign now i r) = assigned (F i) (f r)"
      and fc: "\<And>now k i. f (createRow now k i) = F i"
      and u: "uniqueKeys s" and k: "\<forall>i \<in> set b. keyed i"
  shows "\<forall>r \<in> set (instances (fold (applyRecord now) b s)).
           assignedValues F b (rowKey r) \<noteq> [] \<longrightarrow> f r = last (assignedValues F b (rowKey r))"
  using k
proof (induction b rule: rev_induct)
  case Nil
  then show ?case by (simp add: assignedValues_def)
next
  case (snoc i b)
  let ?t = "fold (applyRecord now) b s"
  have kb: "\<forall>j \<in> set b. keyed j" and ki: "keyed i" using snoc.prems by simp_all
  have ut: "uniqueKeys ?t" using uniqueKeys_fold[OF u kb] .
  have dt: "distinct (map rowKey (instances ?t))" using ut by (simp add: uniqueKeys_def)
  have IH: "\<forall>r \<in> set (instances ?t).
           assignedValues F b (rowKey r) \<noteq> [] \<longrightarrow> f r = last (assignedValues F b (rowKey r))"
    using snoc.IH[OF kb] .
  show ?case
  proof
    fix r assume "r \<in> set (instances (fold (applyRecord now) (b @ [i]) s))"
    then have r: "r \<in> set (upsertRows now (next_id ?t) i (instances ?t))"
      by (simp add: applyRecord_keyed(1)[OF ki dt])
    from upsertRows_cases[OF r]
    show "assignedValues F (b @ [i]) (rowKey r) \<noteq> [] \<longrightarrow>
          f r = last (assignedValues F (b @ [i]) (rowKey r))"
    proof (elim disjE bexE conjE)
      fix r' assume a: "r' \<in> set (instances ?t)" "rowKey r' = recordKey i" "r = assign now i r'"
      show ?thesis
        using IH a by (auto simp: assignedValues_snoc fa assigned_def)
    next
      assume a: "r \<in> set (instances ?t)" "rowKey r \<noteq> recordKey i"
      show ?thesis
        using IH a by (auto simp: assignedValues_snoc)
    next
      assume a: "r = createRow now (next_id ?t) i" "recordKey i \<notin> rowKey ` set (instances ?t)"
      have "recordKey i \<notin> recordKey ` set b"
        using a(2) keys_fold[OF u kb, of now] by auto
      then have "assignedValues F b (recordKey i) = []"
        by (rule assignedValues_absent)
      then show ?thesis
        using a(1) by (simp add: assignedValues_snoc fc)
    qed
  qed
qed

lemma fold_last_seen:
  assumes u: "uniqueKeys s" and k: "\<forall>i \<in> set b. keyed i"
  shows "\<forall>r \<in> set (instances (fold (applyRecord now) b s)).
           rowKey r \<in> recordKey ` set b \<longrightarrow> c_last_seen r = now"
  using k
proof (induction b rule: rev_induct)
  case Nil
  then show ?case by simp
next
  case (snoc i b)
  let ?t = "fold (applyRecord now) b s"
  have kb: "\<forall>j \<in> set b. keyed j" and ki: "keyed i" using snoc.prems by simp_all
  have ut: "uniqueKeys ?t" using uniqueKeys_fold[OF u kb] .
  have dt: "distinct (map rowKey (instances ?t))" using ut by (simp add: uniqueKeys_def)
  have IH: "\<forall>r \<in> set (instances ?t). rowKey r \<in> recordKey ` set b \<longrightarrow> c_last_seen r = now"
    using snoc.IH[OF kb] .
  show ?case
  proof
    fix r assume "r \<in> set (instances (fold (applyRecord now) (b @ [i]) s))"
    then have r: "r \<in> set (upsertRows now (next_id ?t) i (instances ?t))"
      by (simp add: applyRecord_keyed(1)[OF ki dt])
    from upsertRows_cases[OF r]
    show "rowKey r \<in> recordKey ` set (b @ [i]) \<longrightarrow> c_last_seen r = now"
      using IH by (auto simp: assign_def createRow_def)
  qed
qed

lemma count_key:
  assumes "distinct (map rowKey rows)" and "k \<in> rowKey ` set rows"
  shows "length (filter (\<lambda>r. rowKey r = k) rows) = 1"
proof -
  from assms(2) obtain x where x: "x \<in> set rows" "rowKey x = k" by auto
  show ?thesis using filter_distinct_key[OF assms(1) x(1)] x(2) by simp
qed

lemma settled_field:
  assumes fa: "\<And>now i r. f (assign now i r) = assigned (F i) (f r)"
      and fc: "\<And>now k i. f (createRow now k i) = F i"
      and u: "uniqueKeys s" and k: "\<forall>i \<in> set b. keyed i"
      and r: "r \<in> set (instances (fold (applyRecord now1) b s))"
  shows "f (assignAll now2 b r) = f r"
  using fold_field[OF fa fc u k, of now1] r
  by (simp add: assignAll_field[of f F, OF fa])

lemma settled_row:
  assumes u: "uniqueKeys s" and k: "\<forall>i \<in> set b. keyed i"
      and r: "r \<in> set (instances (fold (applyRecord now1) b s))"
  shows "nonTimestamp (assignAll now2 b r) = nonTimestamp r"
proof -
  have n: "c_name (assignAll now2 b r) = c_name r"
    by (rule settled_field[where F = Name, OF _ _ u k r]) (simp_all add: assign_def createRow_def)
  have a: "c_account_id (assignAll now2 b r) = c_account_id r"
    by (rule settled_field[where F = AccountID, OF _ _ u k r]) (simp_all add: assign_def createRow_def)
  have st: "c_state (assignAll now2 b r) = c_state r"
    by (rule settled_field[where F = State, OF _ _ u k r]) (simp_all add: assign_def createRow_def)
  have p: "c_platform (assignAll now2 b r) = c_platform r"
    by (rule settled_field[where F = Platform, OF _ _ u k r]) (simp_all add: assign_def createRow_def)
  have key: "rowKey (assignAll now2 b r) = rowKey r" by simp
  show ?thesis
    using n a st p key by (simp add: nonTimestamp_def rowKey_def)
qed

text \<open>
  C8. On a store that respects its unique index, for a batch of records that name their
  keys and with the store refusing nothing: applying \<open>SaveOrUpdateBatch\<close> once and then
  again leaves exactly one stored row for each key of the batch; the rows after the second
  application are those after the first in every column that is not a timestamp, and the
  stored tags of every instance id are the same; and after each application \<open>last_seen\<close>
  of every row of the batch is the instant of that application, also in the second one,
  where no other column changes. (The batch is the same list of records both times, as
  the converters build it in each run.)
\<close>

theorem SaveOrUpdateBatch_idempotent:
  fixes s :: store and b :: "Instance list" and now1 now2 :: time
  assumes u: "uniqueKeys s" and k: "\<forall>i \<in> set b. keyed i"
  defines "s1 \<equiv> snd (SaveOrUpdateBatch (\<lambda>n st. False) now1 b s)"
  defines "s2 \<equiv> snd (SaveOrUpdateBatch (\<lambda>n st. False) now2 b s1)"
  shows "fst (SaveOrUpdateBatch (\<lambda>n st. False) now1 b s) = None \<and>
         fst (SaveOrUpdateBatch (\<lambda>n st. False) now2 b s1) = None \<and>
         (\<forall>i \<in> set b. length (filter (\<lambda>r. rowKey r = recordKey i) (instances s1)) = 1 \<and>
                       length (filter (\<lambda>r. rowKey r = recordKey i) (instances s2)) = 1) \<and>
         map nonTimestamp (instances s2) = map nonTimestamp (instances s1) \<and>
         (\<forall>iid. storedTags iid s2 = storedTags iid s1) \<and>
         (\<forall>r \<in> set (instances s1). rowKey r \<in> recordKey ` set b \<longrightarrow> c_last_seen r = now1) \<and>
         (\<forall>r \<in> set (instances s2). rowKey r \<in> recordKey ` set b \<longrightarrow> c_last_seen r = now2)"
proof -
  have e1: "s1 = fold (applyRecord now1) b s"
    by (simp add: s1_def SaveOrUpdateBatch_ok)
  have e2: "s2 = fold (applyRecord now2) b s1"
    by (simp add: s2_def SaveOrUpdateBatch_ok)
  have u1: "uniqueKeys s1" unfolding e1 using uniqueKeys_fold[OF u k] .
  have u2: "uniqueKeys s2" unfolding e2 using uniqueKeys_fold[OF u1 k] .
  have k1: "recordKey ` set b \<subseteq> rowKey ` set (instances s1)"
    unfolding e1 using keys_fold[OF u k, of now1] by auto
  have k2: "recordKey ` set b \<subseteq> rowKey ` set (instances s2)"
    unfolding e2 using keys_fold[OF u1 k, of now2] by auto
  have one: "\<forall>i \<in> set b. length (filter (\<lambda>r. rowKey r = recordKey i) (instances s1)) = 1 \<and>
                       length (filter (\<lambda>r. rowKey r = recordKey i) (instances s2)) = 1"
  proof (intro ballI conjI)
    fix i assume i: "i \<in> set b"
    show "length (filter (\<lambda>r. rowKey r = recordKey i) (instances s1)) = 1"
      using count_key[of "instances s1" "recordKey i"] u1 k1 i by (auto simp: uniqueKeys_def)
    show "length (filter (\<lambda>r. rowKey r = recordKey i) (instances s2)) = 1"
      using count_key[of "instances s2" "recordKey i"] u2 k2 i by (auto simp: uniqueKeys_def)
  qed
  have i2: "instances s2 = map (assignAll now2 b) (instances s1)"
    unfolding e2 using instances_fold_present[OF u1 k k1] .
  have nt: "map nonTimestamp (instances s2) = map nonTimestamp (instances s1)"
    unfolding i2 using settled_row[OF u k, of _ now1 now2] by (simp add: e1)
  have ids: "\<forall>j \<in> set b. InstanceID j \<noteq> []" using k by (simp add: keyed_def)
  have tg: "\<forall>iid. storedTags iid s2 = storedTags iid s1"
    unfolding e2 by (auto simp: storedTags_fold[OF ids] e1 split: option.splits)
  have l1: "\<forall>r \<in> set (instances s1). rowKey r \<in> recordKey ` set b \<longrightarrow> c_last_seen r = now1"
    unfolding e1 using fold_last_seen[OF u k] .
  have l2: "\<forall>r \<in> set (instances s2). rowKey r \<in> recordKey ` set b \<longrightarrow> c_last_seen r = now2"
    unfolding e2 using fold_last_seen[OF u1 k] .
  show ?thesis
    using one nt tg l1 l2 by (simp add: SaveOrUpdateBatch_ok)
qed

theorem SaveOrUpdateBatch_idempotent_witness:
  "uniqueKeys webStore \<and>
   keyed (exInstance ''i-09'' [] ''running'' [(''Env'', ''prod'')]) \<and>
   keyed (exInstance ''i-04'' [] ''stopped'' []) \<and>
   keyed (exInstance ''i-09'' ''api'' [] []) \<and>
   length (filter (\<lambda>r. rowKey r = (''i-09'', ''us-east-1'', ''default''))
     (instances (snd (SaveOrUpdateBatch (\<lambda>n st. False) 80 exBatch
        (snd (SaveOrUpdateBatch (\<lambda>n st. False) 70 exBatch webStore)))))) = 1 \<and>
   map nonTimestamp
     (instances (snd (SaveOrUpdateBatch (\<lambda>n st. False) 80 exBatch
        (snd (SaveOrUpdateBatch (\<lambda>n st. False) 70 exBatch webStore))))) =
   map nonTimestamp
     (instances (snd (SaveOrUpdateBatch (\<lambda>n st. False) 70 exBatch webStore))) \<and>
   storedTags ''i-09''
     (snd (SaveOrUpdateBatch (\<lambda>n st. False) 80 exBatch
        (snd (SaveOrUpdateBatch (\<lambda>n st. False) 70 exBatch webStore)))) =
   storedTags ''i-09'' (snd (SaveOrUpdateBatch (\<lambda>n st. False) 70 exBatch webStore))"
proof -
  have u: "uniqueKeys webStore"
    by code_simp
  have k: "keyed (exInstance ''i-09'' [] ''running'' [(''Env'', ''prod'')])"
      "keyed (exInstance ''i-04'' [] ''stopped'' [])"
      "keyed (exInstance ''i-09'' ''api'' [] [])"
    by (simp_all add: keyed_def exInstance_def)
  have kb: "\<forall>i \<in> set exBatch. keyed i"
    using k by (simp add: exBatch_def)
  have m: "exInstance ''i-09'' ''api'' [] [] \<in> set exBatch"
    by (simp add: exBatch_def)
  have rk: "recordKey (exInstance ''i-09'' ''api'' [] []) = (''i-09'', ''us-east-1'', ''default'')"
    by (simp add: recordKey_def exInstance_def)
  show ?thesis
    using SaveOrUpdateBatch_idempotent[OF u kb, of 70 80] u k m rk
    by (auto dest: bspec[OF _ m])
qed

section \<open>Discovery: units and runs\<close>

lemma saveRecord_Inr: "saveRecord f now i s = Inr t \<Longrightarrow> t = applyRecord now i s"
  by (auto simp: saveRecord_def applyRecord_def Let_def split: prod.splits if_splits)

lemma saveLoop_Inr: "saveLoop faults n now b s = Inr t \<Longrightarrow> t = fold (applyRecord now) b s"
proof (induction b arbitrary: n s)
  case Nil
  then show ?case by simp
next
  case (Cons i b)
  then show ?case
    by (auto split: sum.splits dest: saveRecord_Inr)
qed

lemma SaveOrUpdateBatch_all_or_nothing:
  "(fst (SaveOrUpdateBatch faults now b s) = None \<and>
      snd (SaveOrUpdateBatch faults now b s) = fold (applyRecord now) b s) \<or>
   (fst (SaveOrUpdateBatch faults now b s) \<noteq> None \<and>
      snd (SaveOrUpdateBatch faults now b s) = s)"
  by (auto simp: SaveOrUpdateBatch_def Transaction_def split: sum.splits dest: saveLoop_Inr)

lemma ssmBatchOf_filter:
  "ssmBatchOf managed region profile accountID =
     map (\<lambda>mi. ConvertSSMManagedInstance mi region profile accountID) (filter agentManaged managed)"
  by (induction managed) (auto simp: agentManaged_def split: option.splits)

text \<open>
  C3, as stated, fails. In this unit the store accepts the batch of the compute source and
  refuses the first statement of the batch of the agent source. The unit returns \<open>nil\<close>;
  the refusal is only logged as a warning; the record \<open>i-abc\<close> of the compute source is
  stored and the record \<open>mi-xyz\<close> of the agent source is not. The two sets are written by
  two calls of \<open>SaveOrUpdateBatch\<close>, each with a transaction of its own.
\<close>

theorem unit_single_transaction_counterexample:
  "discoverInstancesForProfileRegion exUnitSSMRefused ''default'' ''us-east-1'' emptyStore =
     (None,
      [WarnFailedToSaveSSMInstancesBatch ''default'' ''us-east-1'' FailedToSaveInstance],
      snd (SaveOrUpdateBatch (\<lambda>n st. False) 70
             [ConvertEC2Instance (exEC2 ''i-abc'' ''web'' ''running'') ''us-east-1'' ''default''
                ''123456789012''] emptyStore)) \<and>
   map c_instance_id
     (instances (snd (snd (discoverInstancesForProfileRegion exUnitSSMRefused ''default''
        ''us-east-1'' emptyStore)))) = [''i-abc''] \<and>
   map InstanceID
     (ssmBatchOf [exSSM ''i-abc'' ''web'' ''Online'', exSSM ''mi-xyz'' ''edge'' ''Online'']
        ''us-east-1'' ''default'' ''123456789012'') = [''mi-xyz'']"
  by code_simp

lemma unit_run:
  fixes env :: unitEnv and profile region :: string and s :: store
  assumes c: "getClient env = Some accountID"
      and d: "describeInstances env = Some found"
      and m: "describeSSMManagedInstances env = Some managedInstances"
  defines "batch \<equiv> map (\<lambda>e. ConvertEC2Instance e region profile accountID) found"
  defines "ssmBatch \<equiv> ssmBatchOf managedInstances region profile accountID"
  defines "r1 \<equiv> SaveOrUpdateBatch (ec2Faults env) (ec2Now env) batch s"
  defines "r2 \<equiv> SaveOrUpdateBatch (ssmFaults env) (ssmNow env) ssmBatch (snd r1)"
  shows "discoverInstancesForProfileRegion env profile region s =
           (None, warnEC2 profile region (fst r1) @ warnSSM profile region (fst r2), snd r2) \<and>
         (fst r1 = None \<and> snd r1 = fold (applyRecord (ec2Now env)) batch s \<or>
          fst r1 \<noteq> None \<and> snd r1 = s) \<and>
         (fst r2 = None \<and> snd r2 = fold (applyRecord (ssmNow env)) ssmBatch (snd r1) \<or>
          fst r2 \<noteq> None \<and> snd r2 = snd r1)"
proof -
  obtain e1 s1 where p1: "r1 = (e1, s1)" by force
  obtain e2 s2 where p2: "r2 = (e2, s2)" by force
  have q1: "SaveOrUpdateBatch (ec2Faults env) (ec2Now env)
      (map (\<lambda>e. ConvertEC2Instance e region profile accountID) found) s = (e1, s1)"
    using p1 by (simp add: r1_def batch_def)
  have q2: "SaveOrUpdateBatch (ssmFaults env) (ssmNow env)
      (ssmBatchOf managedInstances region profile accountID) s1 = (e2, s2)"
    using p1 p2 by (simp add: r2_def ssmBatch_def)
  have e: "ssmBatchOf managedInstances region profile accountID = [] \<Longrightarrow> e2 = None \<and> s2 = s1"
    using q2 by (simp add: SaveOrUpdateBatch_def)
  have u: "discoverInstancesForProfileRegion env profile region s =
           (None, warnEC2 profile region e1 @ warnSSM profile region e2, s2)"
    using e
    by (auto simp: discoverInstancesForProfileRegion_def c d m Let_def warnEC2_def warnSSM_def
          q1 q2)
  have a1: "fst r1 = None \<and> snd r1 = fold (applyRecord (ec2Now env)) batch s \<or>
            fst r1 \<noteq> None \<and> snd r1 = s"
    unfolding r1_def by (rule SaveOrUpdateBatch_all_or_nothing)
  have a2: "fst r2 = None \<and> snd r2 = fold (applyRecord (ssmNow env)) ssmBatch (snd r1) \<or>
            fst r2 \<noteq> None \<and> snd r2 = snd r1"
    unfolding r2_def by (rule SaveOrUpdateBatch_all_or_nothing)
  show ?thesis
    using u a1 a2 by (simp add: p1 p2)
qed

text \<open>
  C3, amended. A unit whose client and two listings succeed writes with two calls of
  \<open>SaveOrUpdateBatch\<close>: the converted compute-source set first, then, on the store that
  the first call left, the converted agent-source set (the \<open>mi-\<close> entries). Each call is
  all or nothing on its own: either it returns \<open>nil\<close> and every record of its batch is
  applied, or it returns an error and leaves the store as it found it. A refusal by the
  store in either call is logged as a warning and is not an error of the unit, which
  returns \<open>nil\<close>.
\<close>

theorem unit_two_transactions:
  fixes env :: unitEnv and profile region :: string and s :: store
  assumes c: "getClient env = Some accountID"
      and d: "describeInstances env = Some found"
      and m: "describeSSMManagedInstances env = Some managedInstances"
  defines "batch \<equiv> map (\<lambda>e. ConvertEC2Instance e region profile accountID) found"
  defines "ssmBatch \<equiv> ssmBatchOf managedInstances region profile accountID"
  defines "r1 \<equiv> SaveOrUpdateBatch (ec2Faults env) (ec2Now env) batch s"
  defines "r2 \<equiv> SaveOrUpdateBatch (ssmFaults env) (ssmNow env) ssmBatch (snd r1)"
  shows "discoverInstancesForProfileRegion env profile region s =
           (None, warnEC2 profile region (fst r1) @ warnSSM profile region (fst r2), snd r2) \<and>
         (fst r1 = None \<and> snd r1 = fold (applyRecord (ec2Now env)) batch s \<or>
          fst r1 \<noteq> None \<and> snd r1 = s) \<and>
         (fst r2 = None \<and> snd r2 = fold (applyRecord (ssmNow env)) ssmBatch (snd r1) \<or>
          fst r2 \<noteq> None \<and> snd r2 = snd r1)"
  unfolding r2_def r1_def ssmBatch_def batch_def
  by (rule unit_run[OF c d m])

theorem unit_two_transactions_witness:
  "getClient exUnitSSMRefused = Some ''123456789012'' \<and>
   describeInstances exUnitSSMRefused = Some [exEC2 ''i-abc'' ''web'' ''running''] \<and>
   describeSSMManagedInstances exUnitSSMRefused =
     Some [exSSM ''i-abc'' ''web'' ''Online'', exSSM ''mi-xyz'' ''edge'' ''Online''] \<and>
   discoverInstancesForProfileRegion exUnitSSMRefused ''default'' ''us-east-1'' emptyStore =
     (None,
      [WarnFailedToSaveSSMInstancesBatch ''default'' ''us-east-1'' FailedToSaveInstance],
      fold (applyRecord 70)
        [ConvertEC2Instance (exEC2 ''i-abc'' ''web'' ''running'') ''us-east-1'' ''default''
           ''123456789012''] emptyStore)"
proof -
  have c: "getClient exUnitSSMRefused = Some ''123456789012''"
    and d: "describeInstances exUnitSSMRefused = Some [exEC2 ''i-abc'' ''web'' ''running'']"
    and m: "describeSSMManagedInstances exUnitSSMRefused =
     Some [exSSM ''i-abc'' ''web'' ''Online'', exSSM ''mi-xyz'' ''edge'' ''Online'']"
    by (simp_all add: exUnitSSMRefused_def exUnit_def)
  have h: "discoverInstancesForProfileRegion exUnitSSMRefused ''default'' ''us-east-1'' emptyStore =
     (None,
      [WarnFailedToSaveSSMInstancesBatch ''default'' ''us-east-1'' FailedToSaveInstance],
      fold (applyRecord 70)
        [ConvertEC2Instance (exEC2 ''i-abc'' ''web'' ''running'') ''us-east-1'' ''default''
           ''123456789012''] emptyStore)"
    by code_simp
  show ?thesis
    using unit_two_transactions[OF c d m, where region = "''us-east-1''" and profile = "''default''"
        and s = emptyStore] c d m h
    by blast
qed

lemma InstanceID_convertTags [simp]:
  "InstanceID (convertTags ts i) = InstanceID i \<and> Region (convertTags ts i) = Region i \<and>
   Profile (convertTags ts i) = Profile i"
  by (induction ts i rule: convertTags.induct) auto

lemma recordKey_ConvertEC2Instance:
  "recordKey (ConvertEC2Instance e region profile accountID) = (ec2_InstanceId e, region, profile)"
  by (simp add: recordKey_def ConvertEC2Instance_def newInstance_def Let_def split: option.splits)

lemma recordKey_ConvertSSMManagedInstance:
  "ssm_InstanceId mi = Some x \<Longrightarrow>
   recordKey (ConvertSSMManagedInstance mi region profile accountID) = (x, region, profile)"
  by (simp add: recordKey_def ConvertSSMManagedInstance_def newInstance_def Let_def
        split: option.splits)

lemma agentManaged_id:
  "agentManaged mi \<Longrightarrow> \<exists>x. ssm_InstanceId mi = Some x \<and> take 3 x = ''mi-'' \<and> x \<noteq> []"
  by (auto simp: agentManaged_def split: option.splits)

text \<open>
  C7. The agent-source batch of a unit is the conversion of exactly the entries whose
  instance identifier starts with \<open>mi-\<close>; every other entry, so every entry with the
  compute prefix, is dropped. On a store that respects its unique index, for a unit with
  a non-empty profile and region whose remote calls succeed, whose compute instances have
  non-empty identifiers and whose writes the store accepts: the unit returns \<open>nil\<close>, the
  stored keys are afterwards the keys stored before, the keys of the compute instances and
  the keys of the \<open>mi-\<close> entries, and each compute instance (also one that the agent source
  reports under the same \<open>i-\<close> identifier) and each \<open>mi-\<close> entry has exactly one stored row.
\<close>

theorem unit_deduplicates:
  fixes env :: unitEnv and profile region :: string and s :: store
  assumes u: "uniqueKeys s" and p: "profile \<noteq> []" and g: "region \<noteq> []"
      and c: "getClient env = Some accountID"
      and d: "describeInstances env = Some found"
      and m: "describeSSMManagedInstances env = Some managedInstances"
      and ids: "\<forall>e \<in> set found. ec2_InstanceId e \<noteq> []"
      and f1: "ec2Faults env = (\<lambda>n st. False)" and f2: "ssmFaults env = (\<lambda>n st. False)"
  shows "ssmBatchOf managedInstances region profile accountID =
           map (\<lambda>mi. ConvertSSMManagedInstance mi region profile accountID)
             (filter agentManaged managedInstances) \<and>
         (\<exists>s'. discoverInstancesForProfileRegion env profile region s = (None, [], s') \<and>
            uniqueKeys s' \<and>
            rowKey ` set (instances s') =
              rowKey ` set (instances s) \<union> computeKeys found region profile \<union>
              agentKeys managedInstances region profile \<and>
            (\<forall>k \<in> computeKeys found region profile \<union> agentKeys managedInstances region profile.
               length (filter (\<lambda>r. rowKey r = k) (instances s')) = 1))"
proof -
  let ?batch = "map (\<lambda>e. ConvertEC2Instance e region profile accountID) found"
  let ?ssm = "ssmBatchOf managedInstances region profile accountID"
  let ?s1 = "fold (applyRecord (ec2Now env)) ?batch s"
  let ?s2 = "fold (applyRecord (ssmNow env)) ?ssm ?s1"
  have k1: "\<forall>i \<in> set ?batch. keyed i"
    using ids p g recordKey_ConvertEC2Instance[of _ region profile accountID]
    by (auto simp: keyed_def recordKey_def)
  have k2: "\<forall>i \<in> set ?ssm. keyed i"
  proof
    fix i assume "i \<in> set ?ssm"
    then obtain mi where mi: "mi \<in> set managedInstances" "agentManaged mi"
        "i = ConvertSSMManagedInstance mi region profile accountID"
      by (auto simp: ssmBatchOf_filter)
    from agentManaged_id[OF mi(2)] obtain x where x: "ssm_InstanceId mi = Some x" "x \<noteq> []"
      by blast
    show "keyed i"
      using recordKey_ConvertSSMManagedInstance[OF x(1), of region profile accountID] x(2) p g mi(3)
      by (simp add: keyed_def recordKey_def)
  qed
  have rk1: "recordKey ` set ?batch = computeKeys found region profile"
    by (simp add: computeKeys_def image_image recordKey_ConvertEC2Instance)
  have rk2: "recordKey ` set ?ssm = agentKeys managedInstances region profile"
  proof -
    have "\<And>mi. agentManaged mi \<Longrightarrow>
        recordKey (ConvertSSMManagedInstance mi region profile accountID) =
        (case ssm_InstanceId mi of Some x \<Rightarrow> x | None \<Rightarrow> [], region, profile)"
      using agentManaged_id recordKey_ConvertSSMManagedInstance by fastforce
    then show ?thesis
      by (auto simp: agentKeys_def ssmBatchOf_filter image_iff)
  qed
  have u1: "uniqueKeys ?s1" using uniqueKeys_fold[OF u k1] .
  have u2: "uniqueKeys ?s2" using uniqueKeys_fold[OF u1 k2] .
  have keys: "rowKey ` set (instances ?s2) =
      rowKey ` set (instances s) \<union> computeKeys found region profile \<union>
      agentKeys managedInstances region profile"
    using keys_fold[OF u k1, of "ec2Now env"] keys_fold[OF u1 k2, of "ssmNow env"] rk1 rk2
    by auto
  have cnt: "\<forall>k \<in> computeKeys found region profile \<union> agentKeys managedInstances region profile.
               length (filter (\<lambda>r. rowKey r = k) (instances ?s2)) = 1"
  proof
    fix k assume "k \<in> computeKeys found region profile \<union> agentKeys managedInstances region profile"
    then have "k \<in> rowKey ` set (instances ?s2)" using keys by blast
    then show "length (filter (\<lambda>r. rowKey r = k) (instances ?s2)) = 1"
      using count_key u2 by (simp add: uniqueKeys_def)
  qed
  have run: "discoverInstancesForProfileRegion env profile region s = (None, [], ?s2)"
    using unit_run[OF c d m, where region = region and profile = profile and s = s]
    by (simp add: f1 f2 SaveOrUpdateBatch_ok warnEC2_def warnSSM_def)
  show ?thesis
  proof (intro conjI exI[of _ ?s2])
    show "ssmBatchOf managedInstances region profile accountID =
           map (\<lambda>mi. ConvertSSMManagedInstance mi region profile accountID)
             (filter agentManaged managedInstances)"
      by (rule ssmBatchOf_filter)
  qed (rule run u2 keys cnt)+
qed

lemma unit_error_iff:
  "fst (discoverInstancesForProfileRegion e p r s) \<noteq> None \<longleftrightarrow>
     getClient e = None \<or> describeInstances e = None \<or> describeSSMManagedInstances e = None"
  by (auto simp: discoverInstancesForProfileRegion_def Let_def split: option.splits prod.splits)

lemma goroutine_error_iff: "fst (goroutine e p r s) \<noteq> None \<longleftrightarrow> unitFailed e"
proof (cases "acquireCancelled e")
  case True
  then show ?thesis by (simp add: goroutine_def unitFailed_def)
next
  case False
  obtain err lg s' where u: "discoverInstancesForProfileRegion e p r s = (err, lg, s')"
    by (metis prod_cases3)
  have "err \<noteq> None \<longleftrightarrow>
     getClient e = None \<or> describeInstances e = None \<or> describeSSMManagedInstances e = None"
    using unit_error_iff[of e p r s] u by simp
  then show ?thesis
    using False u by (cases err) (auto simp: goroutine_def unitFailed_def)
qed

lemma fanOut_errors:
  "length (fst (fanOut envs units s)) =
     length (filter (\<lambda>(p, r). unitFailed (envs p r)) units)"
proof (induction units arbitrary: s)
  case Nil
  then show ?case by simp
next
  case (Cons u units)
  obtain p r where pr: "u = (p, r)" by force
  obtain err lg s' where g: "goroutine (envs p r) p r s = (err, lg, s')"
    by (metis prod_cases3)
  obtain errors lgs s'' where f: "fanOut envs units s' = (errors, lgs, s'')"
    by (metis prod_cases3)
  have e: "err \<noteq> None \<longleftrightarrow> unitFailed (envs p r)"
    using goroutine_error_iff[of "envs p r" p r s] g by simp
  have "length errors = length (filter (\<lambda>(p, r). unitFailed (envs p r)) units)"
    using Cons.IH[of s'] f by simp
  then show ?case
    using e by (cases err) (auto simp: pr g f)
qed

lemma notBefore_iff: "notBefore c now \<longleftrightarrow> (\<forall>x. c = Some x \<longrightarrow> x \<le> now)"
  by (cases c) (simp_all add: notBefore_def)

lemma present_iff:
  "present c s k \<longleftrightarrow>
     (\<exists>r \<in> set (instances s). rowKey r = k \<and> (\<forall>x. c = Some x \<longrightarrow> x \<le> c_last_seen r))"
  by (simp add: present_def notBefore_iff)

lemma present_FirstOrCreate:
  assumes "present c s k" and "notBefore c now"
  shows "present c (snd (FirstOrCreate now i s)) k"
proof -
  from assms(1) obtain r where r: "r \<in> set (instances s)" "rowKey r = k"
      "\<forall>x. c = Some x \<longrightarrow> x \<le> c_last_seen r"
    by (auto simp: present_iff)
  show ?thesis
  proof (cases "firstOrdered False c_id (filter (whereKey i) (instances s))")
    case (Found r0)
    let ?g = "\<lambda>r'. if c_id r' = c_id r0 \<and> whereKey i r' then assign now i r' else r'"
    have "?g r \<in> set (instances (snd (FirstOrCreate now i s)))"
      using r(1) Found by (simp add: FirstOrCreate_def)
    moreover have "rowKey (?g r) = k" using r(2) by simp
    moreover have "\<forall>x. c = Some x \<longrightarrow> x \<le> c_last_seen (?g r)"
      using r(3) assms(2) by (auto simp: notBefore_iff assign_def)
    ultimately show ?thesis unfolding present_iff by blast
  next
    case QueryError
    then show ?thesis using r by (auto simp: FirstOrCreate_def present_iff)
  next
    case ErrRecordNotFound
    then show ?thesis using r by (auto simp: FirstOrCreate_def present_iff)
  qed
qed

lemma present_FirstOrCreate_self:
  assumes "keyed i" and "notBefore c now"
  shows "present c (snd (FirstOrCreate now i s)) (recordKey i)"
proof (cases "filter (whereKey i) (instances s) = []")
  case True
  have "createRow now (next_id s) i \<in> set (instances (snd (FirstOrCreate now i s)))"
    using True by (simp add: FirstOrCreate_def firstOrdered_def)
  moreover have "\<forall>x. c = Some x \<longrightarrow> x \<le> c_last_seen (createRow now (next_id s) i)"
    using assms(2) by (simp add: notBefore_iff createRow_def)
  ultimately show ?thesis
    unfolding present_iff using rowKey_createRow by blast
next
  case False
  let ?r0 = "arg_min_list c_id (filter (whereKey i) (instances s))"
  let ?g = "\<lambda>r'. if c_id r' = c_id ?r0 \<and> whereKey i r' then assign now i r' else r'"
  have m: "?r0 \<in> set (filter (whereKey i) (instances s))"
    using False by (rule arg_min_list_in)
  then have w: "whereKey i ?r0" and mem: "?r0 \<in> set (instances s)" by simp_all
  have "assign now i ?r0 \<in> set (instances (snd (FirstOrCreate now i s)))"
  proof -
    have "?g ?r0 \<in> ?g ` set (instances s)" using mem by (rule imageI)
    then show ?thesis using False w by (simp add: FirstOrCreate_def firstOrdered_def)
  qed
  moreover have "rowKey (assign now i ?r0) = recordKey i"
    using w by (simp add: whereKey_keyed[OF assms(1)])
  moreover have "\<forall>x. c = Some x \<longrightarrow> x \<le> c_last_seen (assign now i ?r0)"
    using assms(2) by (simp add: notBefore_iff assign_def)
  ultimately show ?thesis unfolding present_iff by blast
qed

lemma present_applyRecord:
  "present c s k \<Longrightarrow> notBefore c now \<Longrightarrow> present c (applyRecord now i s) k"
  using present_FirstOrCreate[of c s k now i] instances_applyRecord[of now i s]
  by (simp add: present_iff)

lemma present_applyRecord_self:
  "keyed i \<Longrightarrow> notBefore c now \<Longrightarrow> present c (applyRecord now i s) (recordKey i)"
  using present_FirstOrCreate_self[of i c now s] instances_applyRecord[of now i s]
  by (simp add: present_iff)

lemma present_fold:
  "present c s k \<Longrightarrow> notBefore c now \<Longrightarrow> present c (fold (applyRecord now) b s) k"
  by (induction b arbitrary: s) (simp_all add: present_applyRecord)

lemma present_fold_self:
  "i \<in> set b \<Longrightarrow> keyed i \<Longrightarrow> notBefore c now \<Longrightarrow>
   present c (fold (applyRecord now) b s) (recordKey i)"
proof (induction b arbitrary: s)
  case Nil
  then show ?case by simp
next
  case (Cons j b)
  show ?case
  proof (cases "i = j")
    case True
    then show ?thesis
      using Cons.prems present_fold[OF present_applyRecord_self] by simp
  next
    case False
    then show ?thesis using Cons by simp
  qed
qed

lemma present_SaveOrUpdateBatch:
  assumes "present c s k" and "notBefore c now"
  shows "present c (snd (SaveOrUpdateBatch faults now b s)) k"
  using SaveOrUpdateBatch_all_or_nothing[of faults now b s] assms present_fold[of c s k now b]
  by auto

lemma present_unit:
  assumes "present c s k" and "notBefore c (ec2Now e)" and "notBefore c (ssmNow e)"
  shows "present c (snd (snd (discoverInstancesForProfileRegion e p r s))) k"
proof -
  have a: "\<And>b. present c (snd (SaveOrUpdateBatch (ec2Faults e) (ec2Now e) b s)) k"
    using assms by (simp add: present_SaveOrUpdateBatch)
  have b: "\<And>b b'. present c (snd (SaveOrUpdateBatch (ssmFaults e) (ssmNow e) b'
                      (snd (SaveOrUpdateBatch (ec2Faults e) (ec2Now e) b s)))) k"
    using a assms by (simp add: present_SaveOrUpdateBatch)
  show ?thesis
    using assms(1) a b
    by (auto simp: discoverInstancesForProfileRegion_def Let_def
          split: option.splits prod.splits)
       (metis snd_conv)+
qed

lemma present_goroutine:
  assumes "present c s k" and "notBefore c (ec2Now e)" and "notBefore c (ssmNow e)"
  shows "present c (snd (snd (goroutine e p r s))) k"
proof -
  obtain err lg s' where u: "discoverInstancesForProfileRegion e p r s = (err, lg, s')"
    by (metis prod_cases3)
  have "present c s' k" using present_unit[OF assms, of p r] u by simp
  then show ?thesis
    using assms(1) u by (cases err) (auto simp: goroutine_def)
qed

lemma unit_writes_present:
  assumes c: "getClient e = Some accountID"
      and d: "describeInstances e = Some found"
      and m: "describeSSMManagedInstances e = Some managedInstances"
      and f1: "ec2Faults e = (\<lambda>n st. False)" and f2: "ssmFaults e = (\<lambda>n st. False)"
      and i: "i \<in> set (map (\<lambda>x. ConvertEC2Instance x r p accountID) found) \<union>
                  set (ssmBatchOf managedInstances r p accountID)"
      and k: "keyed i"
      and n1: "notBefore t (ec2Now e)" and n2: "notBefore t (ssmNow e)"
  shows "present t (snd (snd (discoverInstancesForProfileRegion e p r s))) (recordKey i)"
proof -
  let ?batch = "map (\<lambda>x. ConvertEC2Instance x r p accountID) found"
  let ?ssm = "ssmBatchOf managedInstances r p accountID"
  have run: "snd (snd (discoverInstancesForProfileRegion e p r s)) =
      fold (applyRecord (ssmNow e)) ?ssm (fold (applyRecord (ec2Now e)) ?batch s)"
    using unit_run[OF c d m, where region = r and profile = p and s = s]
    by (simp add: f1 f2 SaveOrUpdateBatch_ok)
  show ?thesis
  proof (cases "i \<in> set ?batch")
    case True
    then show ?thesis
      unfolding run using present_fold[OF present_fold_self[OF True k n1] n2] by simp
  next
    case False
    then have "i \<in> set ?ssm" using i by blast
    then show ?thesis
      unfolding run using present_fold_self[OF _ k n2] by simp
  qed
qed

lemma present_fanOut:
  assumes "present c s k"
      and "\<forall>(p, r) \<in> set units. notBefore c (ec2Now (envs p r)) \<and> notBefore c (ssmNow (envs p r))"
  shows "present c (snd (snd (fanOut envs units s))) k"
  using assms
proof (induction units arbitrary: s)
  case Nil
  then show ?case by simp
next
  case (Cons u units)
  obtain p r where pr: "u = (p, r)" by force
  obtain err lg s' where g: "goroutine (envs p r) p r s = (err, lg, s')"
    by (metis prod_cases3)
  obtain errors lgs s'' where f: "fanOut envs units s' = (errors, lgs, s'')"
    by (metis prod_cases3)
  have "present c s' k"
    using present_goroutine[of c s k "envs p r" p r] Cons.prems g pr by simp
  then have "present c s'' k"
    using Cons.IH[of s'] Cons.prems(2) f by simp
  then show ?case by (simp add: pr g f)
qed

lemma fanOut_writes_present:
  assumes u: "(p, r) \<in> set units"
      and a: "\<not> acquireCancelled (envs p r)"
      and c: "getClient (envs p r) = Some accountID"
      and d: "describeInstances (envs p r) = Some found"
      and m: "describeSSMManagedInstances (envs p r) = Some managedInstances"
      and f1: "ec2Faults (envs p r) = (\<lambda>n st. False)"
      and f2: "ssmFaults (envs p r) = (\<lambda>n st. False)"
      and i: "i \<in> set (map (\<lambda>x. ConvertEC2Instance x r p accountID) found) \<union>
                  set (ssmBatchOf managedInstances r p accountID)"
      and k: "keyed i"
      and n: "\<forall>(p, r) \<in> set units. notBefore t (ec2Now (envs p r)) \<and> notBefore t (ssmNow (envs p r))"
  shows "present t (snd (snd (fanOut envs units s))) (recordKey i)"
  using u n
proof (induction units arbitrary: s)
  case Nil
  then show ?case by simp
next
  case (Cons v units)
  obtain p' r' where pr: "v = (p', r')" by force
  obtain err lg s' where g: "goroutine (envs p' r') p' r' s = (err, lg, s')"
    by (metis prod_cases3)
  obtain errors lgs s'' where f: "fanOut envs units s' = (errors, lgs, s'')"
    by (metis prod_cases3)
  have rest: "\<forall>(p, r) \<in> set units. notBefore t (ec2Now (envs p r)) \<and> notBefore t (ssmNow (envs p r))"
    using Cons.prems(2) by simp
  show ?case
  proof (cases "(p, r) \<in> set units")
    case True
    then show ?thesis using Cons.IH[OF True rest, of s'] by (simp add: pr g f)
  next
    case False
    then have e: "p' = p" "r' = r" using Cons.prems(1) pr by auto
    have n1: "notBefore t (ec2Now (envs p r))" and n2: "notBefore t (ssmNow (envs p r))"
      using Cons.prems(2) pr e by auto
    obtain err0 lg0 s0 where u0: "discoverInstancesForProfileRegion (envs p r) p r s = (err0, lg0, s0)"
      by (metis prod_cases3)
    have "present t s0 (recordKey i)"
      using unit_writes_present[OF c d m f1 f2 i k n1 n2, of s] u0 by simp
    moreover have "s' = s0"
      using g u0 a e by (cases err0) (auto simp: goroutine_def)
    ultimately have "present t s'' (recordKey i)"
      using present_fanOut[OF _ rest, of s' "recordKey i"] f by simp
    then show ?thesis by (simp add: pr g f)
  qed
qed

lemma present_cleanup:
  assumes "present (evictionCutoff env) s k"
  shows "present (evictionCutoff env) (snd (snd (cleanupStaleInstances env s))) k"
proof (cases "discoveryTTL env")
  case None
  then show ?thesis using assms by (simp add: cleanupStaleInstances_def)
next
  case (Some t)
  then show ?thesis
    using assms
    by (auto simp: cleanupStaleInstances_def DeleteStale_def Let_def present_iff evictionCutoff_def)
qed

lemma freshAtCleanup_notBefore:
  "freshAtCleanup env units \<Longrightarrow>
   \<forall>(p, r) \<in> set units. notBefore (evictionCutoff env) (ec2Now (unitOf env p r)) \<and>
                         notBefore (evictionCutoff env) (ssmNow (unitOf env p r))"
  by (auto simp: freshAtCleanup_def evictionCutoff_def notBefore_iff list_all_iff
        split: option.splits)

lemma DiscoverInstances_resolved:
  assumes "(if length regions0 = 0 then GetEnabledRegions (regionsFault env) s
            else Inr regions0) = Inr regs"
  shows "fst (DiscoverInstances env profiles regions0 s) =
           (let n = length (fst (fanOut (unitOf env) (unitsOf profiles regs) s))
            in if n > 0 then Some (DiscoveryCompletedWithErrors n) else None) \<and>
         snd (snd (DiscoverInstances env profiles regions0 s)) =
           snd (snd (cleanupStaleInstances env
             (snd (snd (fanOut (unitOf env) (unitsOf profiles regs) s)))))"
proof -
  obtain errors lg s1 where f: "fanOut (unitOf env) (unitsOf profiles regs) s = (errors, lg, s1)"
    by (metis prod_cases3)
  obtain cerr clg s2 where c: "cleanupStaleInstances env s1 = (cerr, clg, s2)"
    by (metis prod_cases3)
  show ?thesis
    using assms f c
    by (simp add: DiscoverInstances_def Let_def unitsOf_def)
qed


theorem unit_deduplicates_witness:
  "uniqueKeys emptyStore \<and>
   getClient exUnit = Some ''123456789012'' \<and>
   describeInstances exUnit = Some [exEC2 ''i-abc'' ''web'' ''running''] \<and>
   describeSSMManagedInstances exUnit =
     Some [exSSM ''i-abc'' ''web'' ''Online'', exSSM ''mi-xyz'' ''edge'' ''Online''] \<and>
   map c_instance_id
     (instances (snd (snd (discoverInstancesForProfileRegion exUnit ''default'' ''us-east-1''
        emptyStore)))) = [''i-abc'', ''mi-xyz''] \<and>
   length (filter (\<lambda>r. rowKey r = (''i-abc'', ''us-east-1'', ''default''))
     (instances (snd (snd (discoverInstancesForProfileRegion exUnit ''default'' ''us-east-1''
        emptyStore))))) = 1 \<and>
   length (filter (\<lambda>r. rowKey r = (''mi-xyz'', ''us-east-1'', ''default''))
     (instances (snd (snd (discoverInstancesForProfileRegion exUnit ''default'' ''us-east-1''
        emptyStore))))) = 1"
proof -
  have u: "uniqueKeys emptyStore" by code_simp
  have p: "''default'' \<noteq> []" and g: "''us-east-1'' \<noteq> []" by simp_all
  have c: "getClient exUnit = Some ''123456789012''"
    and d: "describeInstances exUnit = Some [exEC2 ''i-abc'' ''web'' ''running'']"
    and m: "describeSSMManagedInstances exUnit =
     Some [exSSM ''i-abc'' ''web'' ''Online'', exSSM ''mi-xyz'' ''edge'' ''Online'']"
    and f1: "ec2Faults exUnit = (\<lambda>n st. False)" and f2: "ssmFaults exUnit = (\<lambda>n st. False)"
    by (simp_all add: exUnit_def)
  have ids: "\<forall>e \<in> set [exEC2 ''i-abc'' ''web'' ''running'']. ec2_InstanceId e \<noteq> []"
    by (simp add: exEC2_def)
  have rows: "map c_instance_id
     (instances (snd (snd (discoverInstancesForProfileRegion exUnit ''default'' ''us-east-1''
        emptyStore)))) = [''i-abc'', ''mi-xyz'']"
    by code_simp
  have k1: "(''i-abc'', ''us-east-1'', ''default'') \<in>
      computeKeys [exEC2 ''i-abc'' ''web'' ''running''] ''us-east-1'' ''default''"
    by (simp add: computeKeys_def exEC2_def)
  have k2: "(''mi-xyz'', ''us-east-1'', ''default'') \<in>
      agentKeys [exSSM ''i-abc'' ''web'' ''Online'', exSSM ''mi-xyz'' ''edge'' ''Online'']
        ''us-east-1'' ''default''"
    by (simp add: agentKeys_def agentManaged_def exSSM_def)
  show ?thesis
    using unit_deduplicates[OF u p g c d m ids f1 f2] u c d m rows k1 k2
    by auto
qed


end
